theory Spec2Isabelle
  imports Complex_Main
begin

section \<open>Numbers\<close>

text \<open>
  The program's numbers are Luau doubles. They are modelled as reals: arithmetic on
  finite numbers is exact, \<open>x ** 2\<close> is \<open>x\<^sup>2\<close>, \<open>math.sqrt\<close> is \<open>sqrt\<close> (only ever
  applied to a non-negative number), and a result that may be absent
  (\<open>number | undefined\<close>) is an option. Rounding and overflow are not represented, and
  zero has no sign: it stands for the positive zero of the doubles (the sign of a zero
  could change a result only through a negative zero passed as \<open>ay\<close>).

  Where the source divides, the divisor may be zero and the quotient is then an infinity
  or NaN. The sphere solver divides by \<open>2 * a\<close>, which is zero only for a zero velocity:
  both of its quotients are then \<open>0 / 0\<close>, no comparison with NaN holds and the solver
  returns nothing, which is what it returns here too (\<open>evaluateIntercept_zero_velocity\<close>
  below). The cylinder solver divides by \<open>vx\<^sup>2 + vz\<^sup>2\<close> and by \<open>ay\<close> and computes on
  with the quotients, so these are \<open>number\<close>s: a double that is finite, an infinity or
  NaN, with the arithmetic and the comparisons doubles have. A comparison with NaN is
  false, and \<open>math.max(a, b)\<close> is \<open>b\<close> when \<open>b > a\<close> and \<open>a\<close> otherwise.
\<close>

datatype number = Finite real | PosInf | NegInf | NaN

instantiation number :: "{power, plus, inverse, ord}"
begin

definition one_number :: number where
  "one_number = Finite 1"

fun plus_number :: "number \<Rightarrow> number \<Rightarrow> number" where
  "Finite a + Finite b = Finite (a + b)"
| "NaN + v = NaN"
| "u + NaN = NaN"
| "PosInf + NegInf = NaN"
| "NegInf + PosInf = NaN"
| "PosInf + v = PosInf"
| "u + PosInf = PosInf"
| "NegInf + v = NegInf"
| "u + NegInf = NegInf"

fun times_number :: "number \<Rightarrow> number \<Rightarrow> number" where
  "Finite a * Finite b = Finite (a * b)"
| "NaN * v = NaN"
| "u * NaN = NaN"
| "Finite a * PosInf = (if a > 0 then PosInf else if a < 0 then NegInf else NaN)"
| "Finite a * NegInf = (if a > 0 then NegInf else if a < 0 then PosInf else NaN)"
| "PosInf * Finite b = (if b > 0 then PosInf else if b < 0 then NegInf else NaN)"
| "NegInf * Finite b = (if b > 0 then NegInf else if b < 0 then PosInf else NaN)"
| "PosInf * PosInf = PosInf"
| "PosInf * NegInf = NegInf"
| "NegInf * PosInf = NegInf"
| "NegInf * NegInf = PosInf"

fun divide_number :: "number \<Rightarrow> number \<Rightarrow> number" where
  "divide_number (Finite a) (Finite b) =
     (if b \<noteq> 0 then Finite (a / b)
      else if a > 0 then PosInf else if a < 0 then NegInf else NaN)"
| "divide_number NaN v = NaN"
| "divide_number u NaN = NaN"
| "divide_number (Finite a) PosInf = Finite 0"
| "divide_number (Finite a) NegInf = Finite 0"
| "divide_number PosInf (Finite b) = (if b \<ge> 0 then PosInf else NegInf)"
| "divide_number NegInf (Finite b) = (if b \<ge> 0 then NegInf else PosInf)"
| "divide_number PosInf v = NaN"
| "divide_number NegInf v = NaN"

definition inverse_number :: "number \<Rightarrow> number" where
  "inverse_number v = divide (Finite 1) v"

fun less_number :: "number \<Rightarrow> number \<Rightarrow> bool" where
  "Finite a < Finite b \<longleftrightarrow> a < b"
| "NaN < v \<longleftrightarrow> False"
| "u < NaN \<longleftrightarrow> False"
| "u < NegInf \<longleftrightarrow> False"
| "PosInf < v \<longleftrightarrow> False"
| "Finite a < PosInf \<longleftrightarrow> True"
| "NegInf < Finite b \<longleftrightarrow> True"
| "NegInf < PosInf \<longleftrightarrow> True"

fun less_eq_number :: "number \<Rightarrow> number \<Rightarrow> bool" where
  "Finite a \<le> Finite b \<longleftrightarrow> a \<le> b"
| "NaN \<le> v \<longleftrightarrow> False"
| "u \<le> NaN \<longleftrightarrow> False"
| "NegInf \<le> v \<longleftrightarrow> True"
| "u \<le> PosInf \<longleftrightarrow> True"
| "Finite a \<le> NegInf \<longleftrightarrow> False"
| "PosInf \<le> Finite b \<longleftrightarrow> False"
| "PosInf \<le> NegInf \<longleftrightarrow> False"

instance ..

end

definition math_max :: "number \<Rightarrow> number \<Rightarrow> number" where
  "math_max a b = (if b > a then b else a)"

section \<open>Vectors\<close>

text \<open>
  \<open>Vector3\<close> of the host engine, with the operations the program uses:
  \<open>sub\<close>, the componentwise \<open>mul\<close> and \<open>Magnitude\<close>.
\<close>

record Vector3 =
  X :: real
  Y :: real
  Z :: real

definition sub :: "Vector3 \<Rightarrow> Vector3 \<Rightarrow> Vector3" where
  "sub u v = \<lparr>X = X u - X v, Y = Y u - Y v, Z = Z u - Z v\<rparr>"

definition mul :: "Vector3 \<Rightarrow> Vector3 \<Rightarrow> Vector3" where
  "mul u v = \<lparr>X = X u * X v, Y = Y u * Y v, Z = Z u * Z v\<rparr>"

definition Magnitude :: "Vector3 \<Rightarrow> real" where
  "Magnitude v = sqrt ((X v)\<^sup>2 + (Y v)\<^sup>2 + (Z v)\<^sup>2)"

section \<open>The sphere solver (first generation)\<close>

definition evaluateIntercept ::
  "real \<Rightarrow> real \<Rightarrow> real \<Rightarrow> real \<Rightarrow> real \<Rightarrow> real \<Rightarrow> real \<Rightarrow> real option" where
  "evaluateIntercept x y z vx vy vz R =
     (let a = vx\<^sup>2 + vy\<^sup>2 + vz\<^sup>2;
          b = 2 * (vx * x + vy * y + vz * z);
          c = x\<^sup>2 + y\<^sup>2 + z\<^sup>2 - R\<^sup>2;
          discriminant = b\<^sup>2 - 4 * a * c
      in if discriminant < 0 then None
         else
           let sqrtDiscriminant = sqrt discriminant;
               denominator = 2 * a;
               t0 = (- b - sqrtDiscriminant) / denominator
           in if t0 > 0 then Some t0
              else
                let t1 = (- b + sqrtDiscriminant) / denominator
                in if t1 > 0 then Some t1 else None)"

text \<open>
  The quadratic of the specification, \<open>|p + v t|\<^sup>2 = R\<^sup>2\<close>, as the set of its real
  solutions.
\<close>

definition sphere_roots ::
  "real \<Rightarrow> real \<Rightarrow> real \<Rightarrow> real \<Rightarrow> real \<Rightarrow> real \<Rightarrow> real \<Rightarrow> real set" where
  "sphere_roots x y z vx vy vz R =
     {t. (x + vx * t)\<^sup>2 + (y + vy * t)\<^sup>2 + (z + vz * t)\<^sup>2 = R\<^sup>2}"

section \<open>The cylinder solver (second generation)\<close>

text \<open>
  \<open>evaluateCylindricalCollision\<close> is split along the comments of its source: the entry
  time into the radius (\<open>t0\<close> of "Radius intersect calculations"), the choice of a cap
  crossing (\<open>t1\<close> of "Height intersect calculations", before the final radius test), and
  the function itself. \<open>tmin\<close> is the source's \<open>min = math.max(t0, 0)\<close>. The three
  quotients and what is computed from them are \<open>number\<close>s; \<open>height\<close>, which the
  source computes only when \<open>t0 > 0\<close>, is bound before that test.
\<close>

definition radiusEntry :: "real \<Rightarrow> real \<Rightarrow> real \<Rightarrow> real \<Rightarrow> real \<Rightarrow> number" where
  "radiusEntry x z vx vz R =
     (let R_sq = R\<^sup>2;
          vx_sq = vx\<^sup>2;
          vz_sq = vz\<^sup>2;
          vxz_magnitude_sq = vx_sq + vz_sq;
          discriminant = R_sq * vxz_magnitude_sq - (vx * z - vz * x)\<^sup>2;
          b = - vx * x - vz * z
      in Finite (b - sqrt discriminant) / Finite vxz_magnitude_sq)"

definition capCrossing :: "real \<Rightarrow> real \<Rightarrow> real \<Rightarrow> real \<Rightarrow> number \<Rightarrow> number option" where
  "capCrossing y vy ay D tmin =
     (let vy_sq = vy\<^sup>2;
          upper_discriminant = vy_sq + 2 * ay * (D - y);
          lower_discriminant = vy_sq - 2 * ay * (D + y);
          t1 = (if upper_discriminant > 0
                then (let root = sqrt upper_discriminant;
                          t = Finite (- vy - root) / Finite ay
                      in if t > tmin then Some t else None)
                else None)
      in if lower_discriminant > 0
         then (let root = sqrt lower_discriminant;
                   t = Finite (- vy + root) / Finite ay
               in if (case t1 of Some u \<Rightarrow> t < u | None \<Rightarrow> False) \<or> t > tmin
                  then Some t else t1)
         else t1)"

definition evaluateCylindricalCollision ::
  "real \<Rightarrow> real \<Rightarrow> real \<Rightarrow> real \<Rightarrow> real \<Rightarrow> real \<Rightarrow> real \<Rightarrow> real \<Rightarrow> real \<Rightarrow> number option" where
  "evaluateCylindricalCollision x y z vx vy vz ay R H =
     (let D = H / 2;
          R_sq = R\<^sup>2
      in if - D \<le> y \<and> y \<le> D \<and> x\<^sup>2 + z\<^sup>2 \<le> R_sq then Some (Finite 0)
         else
           let discriminant = R_sq * (vx\<^sup>2 + vz\<^sup>2) - (vx * z - vz * x)\<^sup>2
           in if discriminant < 0 then None
              else
                let t0 = radiusEntry x z vx vz R;
                    height = Finite y + Finite vy * t0 + Finite (0.5 * ay) * t0\<^sup>2
                in if t0 > Finite 0 \<and> Finite (- D) \<le> height \<and> height \<le> Finite D
                   then Some t0
                   else
                     (case capCrossing y vy ay D (math_max t0 (Finite 0)) of
                        None \<Rightarrow> None
                      | Some t1 \<Rightarrow>
                          let radius_sq = (Finite x + Finite vx * t1)\<^sup>2
                                            + (Finite z + Finite vz * t1)\<^sup>2
                          in if radius_sq > Finite R_sq then None else Some t1))"

section \<open>Positions along a trajectory\<close>

text \<open>
  \<open>calculateRadius\<close> and \<open>calculateHeight\<close> are the position helpers of the first
  generation's source: the horizontal distance from the axis and the vertical offset at
  time \<open>t\<close>, the latter with the \<open>0.5 * ay * t ** 2\<close> term.
\<close>

definition calculateRadius :: "real \<Rightarrow> real \<Rightarrow> real \<Rightarrow> real \<Rightarrow> real \<Rightarrow> real" where
  "calculateRadius x z vx vz t =
     (let dx = x + vx * t;
          dz = z + vz * t
      in sqrt (dx\<^sup>2 + dz\<^sup>2))"

definition calculateHeight :: "real \<Rightarrow> real \<Rightarrow> real \<Rightarrow> real \<Rightarrow> real" where
  "calculateHeight y vy ay t = (let dy = y + vy * t + 0.5 * ay * t\<^sup>2 in dy)"

text \<open>
  The boundary of the target cylinder (radius \<open>R\<close>, height \<open>H\<close>, centred on the agent):
  its lateral surface and its two caps.
\<close>

definition on_lateral_surface :: "real \<Rightarrow> real \<Rightarrow> real \<Rightarrow> real \<Rightarrow> bool" where
  "on_lateral_surface R H r h \<longleftrightarrow> r = \<bar>R\<bar> \<and> - (H / 2) \<le> h \<and> h \<le> H / 2"

definition on_cap :: "real \<Rightarrow> real \<Rightarrow> real \<Rightarrow> real \<Rightarrow> bool" where
  "on_cap R H r h \<longleftrightarrow> r \<le> \<bar>R\<bar> \<and> (h = H / 2 \<or> h = - (H / 2))"

section \<open>Bin: the ordered cleanup container\<close>

text \<open>
  An item of a \<open>Bin\<close> (the type \<open>Destructible\<close>) is a function, an
  \<open>RBXScriptConnection\<close>, a thread, or an object; the two flags of an object say whether
  it has a \<open>destroy\<close> and a \<open>Destroy\<close> member. Items are opaque handles: \<open>'a\<close> is
  their identity, and an item added twice is the same handle in two nodes. The call
  \<open>destroy()\<close> makes on an item is recorded as a \<open>disposal\<close>, one constructor per
  branch of its \<open>typeIs\<close> chain (\<open>disposal_of\<close>); an object with neither member is
  not called.
\<close>

datatype 'a Destructible =
    Callback 'a
  | Connection 'a
  | Thread 'a
  | Object 'a bool bool

datatype 'a disposal =
    Called 'a
  | Disconnected 'a
  | Cancelled 'a
  | Destroyed_lower 'a
  | Destroyed_upper 'a

fun disposal_of :: "'a Destructible \<Rightarrow> 'a disposal list" where
  "disposal_of (Callback f) = [Called f]"
| "disposal_of (Connection c) = [Disconnected c]"
| "disposal_of (Thread t) = [Cancelled t]"
| "disposal_of (Object ob has_destroy has_Destroy) =
     (if has_destroy then [Destroyed_lower ob]
      else if has_Destroy then [Destroyed_upper ob]
      else [])"

text \<open>
  The linked list is modelled with its pointers: a \<open>Node\<close> holds its item and the
  address of the next node, the nodes a \<open>Bin\<close> has allocated live in \<open>nodes\<close> (a node's
  address is its index) and \<open>head\<close> and \<open>tail\<close> are addresses. \<open>add\<close> allocates a
  node, sets \<open>head\<close> if it is undefined, links the old tail to the node and moves
  \<open>tail\<close>. \<open>destroy()\<close> never resets \<open>tail\<close>.
\<close>

record 'a Node =
  item :: "'a Destructible"
  nxt :: "nat option"

record 'a Bin =
  head :: "nat option"
  tail :: "nat option"
  nodes :: "'a Node list"

definition new_Bin :: "'a Bin" where
  "new_Bin = \<lparr>head = None, tail = None, nodes = []\<rparr>"

definition Bin_add :: "'a Bin \<Rightarrow> 'a Destructible \<Rightarrow> 'a Bin" where
  "Bin_add this it =
     (let node = length (nodes this);
          b1 = this\<lparr>nodes := nodes this @ [\<lparr>item = it, nxt = None\<rparr>]\<rparr>;
          b2 = (case head b1 of None \<Rightarrow> b1\<lparr>head := Some node\<rparr> | Some h \<Rightarrow> b1);
          b3 = (case tail b2 of
                  Some t \<Rightarrow> b2\<lparr>nodes := (nodes b2)[t := (nodes b2 ! t)\<lparr>nxt := Some node\<rparr>]\<rparr>
                | None \<Rightarrow> b2)
      in b3\<lparr>tail := Some node\<rparr>)"

fun Bin_batch :: "'a Bin \<Rightarrow> 'a Destructible list \<Rightarrow> 'a Bin" where
  "Bin_batch this [] = this"
| "Bin_batch this (it # args) = Bin_batch (Bin_add this it) args"

text \<open>
  A call on an item runs code the \<open>Bin\<close> does not know. A \<open>behaviour\<close> is what that
  code does as far as the \<open>Bin\<close> is concerned: applied to the calls made on items so
  far, the last of them being the call in question, it gives the calls the item's code
  makes on the \<open>Bin\<close> itself (\<open>add\<close>, \<open>batch\<close>, \<open>destroy\<close>, in order) and whether
  it then throws. The code runs to its end without yielding and catches nothing.
  \<open>quiet\<close> is the behaviour of items that make no call on the \<open>Bin\<close> and never throw,
  such as the connections and the unregistering functions this program's components put
  into their bins.
\<close>

datatype 'a Bin_call = Add "'a Destructible" | Batch "'a Destructible list" | Destroy

type_synonym 'a behaviour = "'a disposal list \<Rightarrow> 'a Bin_call list \<times> bool"

definition quiet :: "'a behaviour" where
  "quiet calls = ([], False)"

text \<open>
  \<open>destroy()\<close>, step by step. An item's code may call \<open>destroy()\<close> while the loop of
  an earlier \<open>destroy()\<close> is in that item's call, so the activations of \<open>destroy()\<close>
  are kept on a stack: \<open>Loop\<close> is an activation at the test of \<open>while (this.head)\<close>,
  and \<open>Item\<close> one inside the call of the head's item, with the calls on the \<open>Bin\<close>
  that the item's code has still to make and whether it throws after them. At the test,
  an undefined \<open>head\<close> ends the activation; otherwise the head's item is called. When
  the item's code is done it throws, or it returns and \<open>this.head = this.head.next\<close>
  is evaluated, which throws when \<open>head\<close> is undefined by then, and the loop is back
  at its test. The loop moves \<open>head\<close> only after the call has returned: when the call
  throws, \<open>head\<close> is still at that item. What is thrown leaves every activation. A
  step yields the next state or the result: whether \<open>destroy()\<close> threw, the bin and
  the calls made on items; a dangling address, which the program cannot build, has no
  result.
\<close>

datatype 'a frame = Loop | Item "'a Bin_call list" bool

fun Bin_step ::
  "'a behaviour \<Rightarrow> 'a frame list \<times> 'a Bin \<times> 'a disposal list
     \<Rightarrow> ('a frame list \<times> 'a Bin \<times> 'a disposal list) + (bool \<times> 'a Bin \<times> 'a disposal list) option"
  where
  "Bin_step code ([], this, calls) = Inr (Some (False, this, calls))"
| "Bin_step code (Loop # stack, this, calls) =
     (case head this of
        None \<Rightarrow> Inl (stack, this, calls)
      | Some h \<Rightarrow>
          if h < length (nodes this)
          then (let call = disposal_of (item (nodes this ! h));
                    calls' = calls @ call;
                    (does, throws) = (if call = [] then ([], False) else code calls')
                in Inl (Item does throws # stack, this, calls'))
          else Inr None)"
| "Bin_step code (Item [] throws # stack, this, calls) =
     (if throws then Inr (Some (True, this, calls))
      else case head this of
             None \<Rightarrow> Inr (Some (True, this, calls))
           | Some h \<Rightarrow>
               if h < length (nodes this)
               then Inl (Loop # stack, this\<lparr>head := nxt (nodes this ! h)\<rparr>, calls)
               else Inr None)"
| "Bin_step code (Item (Add it # does) throws # stack, this, calls) =
     Inl (Item does throws # stack, Bin_add this it, calls)"
| "Bin_step code (Item (Batch args # does) throws # stack, this, calls) =
     Inl (Item does throws # stack, Bin_batch this args, calls)"
| "Bin_step code (Item (Destroy # does) throws # stack, this, calls) =
     Inl (Loop # Item does throws # stack, this, calls)"

text \<open>
  The steps are run until there is a result. This is a partial function: \<open>None\<close>
  stands for a \<open>destroy()\<close> that does not return.
\<close>

partial_function (option) Bin_run ::
  "'a behaviour \<Rightarrow> 'a frame list \<times> 'a Bin \<times> 'a disposal list
     \<Rightarrow> (bool \<times> 'a Bin \<times> 'a disposal list) option" where
  "Bin_run code s =
     (case Bin_step code s of
        Inl s' \<Rightarrow> Bin_run code s'
      | Inr result \<Rightarrow> result)"

definition Bin_destroy ::
  "'a behaviour \<Rightarrow> 'a Bin \<Rightarrow> 'a disposal list \<Rightarrow> (bool \<times> 'a Bin \<times> 'a disposal list) option" where
  "Bin_destroy code this calls = Bin_run code ([Loop], this, calls)"

definition Bin_isEmpty :: "'a Bin \<Rightarrow> bool" where
  "Bin_isEmpty this \<longleftrightarrow> head this = None"

text \<open>
  A sequence of calls made on one \<open>Bin\<close> from outside, threading the bin, the calls
  made on items and, for each \<open>destroy()\<close> of the sequence, whether it threw (a caller
  that goes on after a throwing \<open>destroy()\<close> has caught what it threw, or is another
  event's handler). \<open>added\<close> lists the items a sequence adds, in order, and \<open>pending\<close>
  those added after its last \<open>destroy()\<close>.
\<close>

fun Bin_calls ::
  "'a behaviour \<Rightarrow> 'a Bin_call list \<Rightarrow> 'a Bin \<times> 'a disposal list \<times> bool list
     \<Rightarrow> ('a Bin \<times> 'a disposal list \<times> bool list) option" where
  "Bin_calls code [] s = Some s"
| "Bin_calls code (Add it # cs) (this, calls, thrown) =
     Bin_calls code cs (Bin_add this it, calls, thrown)"
| "Bin_calls code (Batch args # cs) (this, calls, thrown) =
     Bin_calls code cs (Bin_batch this args, calls, thrown)"
| "Bin_calls code (Destroy # cs) (this, calls, thrown) =
     (case Bin_destroy code this calls of
        None \<Rightarrow> None
      | Some (threw, this', calls') \<Rightarrow> Bin_calls code cs (this', calls', thrown @ [threw]))"

fun added :: "'a Bin_call list \<Rightarrow> 'a Destructible list" where
  "added [] = []"
| "added (Add it # cs) = it # added cs"
| "added (Batch args # cs) = args @ added cs"
| "added (Destroy # cs) = added cs"

fun pending :: "'a Destructible list \<Rightarrow> 'a Bin_call list \<Rightarrow> 'a Destructible list" where
  "pending items [] = items"
| "pending items (Add it # cs) = pending (items @ [it]) cs"
| "pending items (Batch args # cs) = pending (items @ args) cs"
| "pending items (Destroy # cs) = pending [] cs"

text \<open>
  The invariant of a \<open>Bin\<close>: the nodes not yet disposed are those from \<open>head\<close> to the
  last allocated one, each linked to its successor, and \<open>tail\<close> is the last allocated
  node.
\<close>

definition first_pending :: "'a Bin \<Rightarrow> nat" where
  "first_pending this = (case head this of None \<Rightarrow> length (nodes this) | Some h \<Rightarrow> h)"

definition Bin_items :: "'a Bin \<Rightarrow> 'a Destructible list" where
  "Bin_items this = drop (first_pending this) (map item (nodes this))"

definition Bin_inv :: "'a Bin \<Rightarrow> bool" where
  "Bin_inv this \<longleftrightarrow>
     first_pending this \<le> length (nodes this)
     \<and> (\<forall>h. head this = Some h \<longrightarrow> h < length (nodes this))
     \<and> (\<forall>i. first_pending this \<le> i \<and> i < length (nodes this) \<longrightarrow>
            nxt (nodes this ! i) = (if Suc i < length (nodes this) then Some (Suc i) else None))
     \<and> tail this = (if nodes this = [] then None else Some (length (nodes this) - 1))"

section \<open>Deferred binding to a child\<close>

text \<open>
  \<open>bindToChild\<close> looks a child up by name and calls \<open>callback\<close> at once, or
  connects to the parent's \<open>ChildAdded\<close> signal. A \<open>Binding\<close> is what the call leaves
  behind and what later events change: the parent's children, the connection
  (\<open>None\<close> when none was made, \<open>Some True\<close> while connected, \<open>Some False\<close> once
  disconnected) and the children \<open>callback\<close> has been called with, in order.
  \<open>ChildAdded\<close> is the engine adding a child and delivering the signal to the handler
  of \<open>bindToChild\<close>, which disconnects before it calls \<open>callback\<close>.
\<close>

record Instance =
  Name :: string
  ident :: nat

record Binding =
  children :: "Instance list"
  connection :: "bool option"
  callbacks :: "Instance list"

definition FindFirstChild :: "Instance list \<Rightarrow> string \<Rightarrow> Instance option" where
  "FindFirstChild cs name' = find (\<lambda>child. Name child = name') cs"

definition bindToChild :: "Instance list \<Rightarrow> string \<Rightarrow> Binding" where
  "bindToChild parent name' =
     (case FindFirstChild parent name' of
        Some child \<Rightarrow> \<lparr>children = parent, connection = None, callbacks = [child]\<rparr>
      | None \<Rightarrow> \<lparr>children = parent, connection = Some True, callbacks = []\<rparr>)"

definition ChildAdded :: "string \<Rightarrow> Instance \<Rightarrow> Binding \<Rightarrow> Binding" where
  "ChildAdded name' child s =
     (let s1 = s\<lparr>children := children s @ [child]\<rparr>
      in if connection s1 = Some True
         then (if Name child = name'
               then (let s2 = s1\<lparr>connection := Some False\<rparr>
                     in s2\<lparr>callbacks := callbacks s2 @ [child]\<rparr>)
               else s1)
         else s1)"

fun ChildAdded_each :: "string \<Rightarrow> Instance list \<Rightarrow> Binding \<Rightarrow> Binding" where
  "ChildAdded_each name' [] s = s"
| "ChildAdded_each name' (child # rest) s = ChildAdded_each name' rest (ChildAdded name' child s)"

section \<open>The module guard\<close>

text \<open>
  The first two statements of either module test and set \<open>_G["bladeball"]\<close>. The rest
  of the module (the class declarations and the controllers' \<open>__init\<close> calls) never
  mentions \<open>_G\<close>: it is the parameter \<open>body\<close>, acting on the rest of the process
  state, and may throw after some of its effects. A result is what was thrown, if
  anything, and the state the process is left in.
\<close>

record 'w Process =
  G :: "string \<Rightarrow> bool"
  runtime :: 'w

definition module_main ::
  "('w \<Rightarrow> string option \<times> 'w) \<Rightarrow> 'w Process \<Rightarrow> string option \<times> 'w Process" where
  "module_main body p =
     (if G p ''bladeball'' then (Some ''This program is already running!'', p)
      else
        let p1 = p\<lparr>G := (G p)(''bladeball'' := True)\<rparr>;
            (thrown, r) = body (runtime p1)
        in (thrown, p1\<lparr>runtime := r\<rparr>))"

text \<open>
  The first statement of the second generation's \<open>ComponentController.__init\<close>, as a
  module body acting on the children of \<open>Workspace\<close>.
\<close>

definition bind_Balls :: "Binding \<Rightarrow> string option \<times> Binding" where
  "bind_Balls workspace = (None, bindToChild (children workspace) ''Balls'')"

section \<open>Components\<close>

text \<open>
  Attribute values are dynamically typed. A \<open>BasePart\<close> is the part of an instance the
  program reads. A \<open>handle\<close> names an item that a component puts into its \<open>Bin\<close>: the
  connections it makes and its unregistering function, each with the address of the
  component that owns it. A component is a record extending \<open>BaseComponent\<close>, as its
  class extends the base class; \<open>inst\<close> is the source's \<open>instance\<close>.
\<close>

datatype attribute = ANil | ABool bool | AString string | ANumber real

record BasePart =
  Position :: Vector3
  AssemblyLinearVelocity :: Vector3
  GetAttribute :: "string \<Rightarrow> attribute"

datatype handle =
    realBall_changed nat
  | target_changed nat
  | unregister_ball nat
  | ball_Destroying nat
  | humanoid_Died nat
  | model_Destroying nat
  | CharacterAdded nat
  | CharacterRemoving nat
  | unregister_player nat

record BaseComponent =
  inst :: nat
  bin :: "handle Bin"

record BallComponent = BaseComponent +
  active :: bool
  target :: attribute
  isHit :: bool

record RigComponent = BaseComponent +
  root :: nat
  humanoid :: nat

type_synonym CharacterComponent = RigComponent

record PlayerComponent = BaseComponent +
  name :: string
  character :: "nat option"

definition debounce :: "BallComponent \<Rightarrow> BallComponent" where
  "debounce this = this\<lparr>isHit := True\<rparr>"

definition canParry :: "BallComponent \<Rightarrow> bool" where
  "canParry this \<longleftrightarrow> \<not> isHit this"

definition getTarget :: "BallComponent \<Rightarrow> attribute" where
  "getTarget this = target this"

definition isActive :: "BallComponent \<Rightarrow> bool" where
  "isActive this = active this"

definition getName :: "PlayerComponent \<Rightarrow> string" where
  "getName this = name this"

definition getCharacter :: "PlayerComponent \<Rightarrow> nat option" where
  "getCharacter this = character this"

text \<open>
  \<open>BaseComponent.destroy()\<close> is \<open>this.bin.destroy()\<close> and the classes keep no flag
  for it. Every constructor leaves the bin non-empty and only \<open>destroy()\<close> empties it,
  so a component has been destroyed exactly when its bin is empty.
\<close>

definition destroyed :: "'a BaseComponent_scheme \<Rightarrow> bool" where
  "destroyed this \<longleftrightarrow> Bin_isEmpty (bin this)"

section \<open>The decision loop\<close>

text \<open>
  The constants of the two generations, the actuator (\<open>keypress\<close> and \<open>keyrelease\<close>
  of key \<open>0x46\<close>) and, for each generation, what the \<open>Heartbeat\<close> connection does with
  one candidate ball (\<open>parry_gen1\<close>, \<open>parry_gen2\<close>). A result is the key events issued
  and the ball afterwards. \<open>instance'\<close>, \<open>name'\<close>, \<open>root'\<close> and \<open>character'\<close> are the
  source's locals of that name.
\<close>

definition RADIUS_gen1 :: real where "RADIUS_gen1 = 17.5"

definition RADIUS_gen2 :: real where "RADIUS_gen2 = 21"

definition HEIGHT :: real where "HEIGHT = 21"

definition COMPENSATION :: real where "COMPENSATION = 200 / 1000"

definition Vector2D :: Vector3 where
  "Vector2D = \<lparr>X = 1, Y = 0, Z = 1\<rparr>"

datatype key_event = keypress nat | keyrelease nat

definition useParry :: "BallComponent \<Rightarrow> key_event list \<times> BallComponent" where
  "useParry ball = ([keypress 0x46, keyrelease 0x46], debounce ball)"

definition parry_gen1 ::
  "string \<Rightarrow> Vector3 \<Rightarrow> Vector3 \<Rightarrow> BasePart \<Rightarrow> BallComponent \<Rightarrow> key_event list \<times> BallComponent" where
  "parry_gen1 name' origin motion instance' ball =
     (if \<not> canParry ball then ([], ball)
      else if getTarget ball \<noteq> AString name' then ([], ball)
      else
        let position = sub (Position instance') origin
        in if Magnitude position < RADIUS_gen1 then useParry ball
           else
             let velocity = sub (AssemblyLinearVelocity instance') motion;
                 intercept = evaluateIntercept (X position) (Y position) (Z position)
                               (X velocity) (Y velocity) (Z velocity) RADIUS_gen1
             in case intercept of
                  None \<Rightarrow> ([], ball)
                | Some t \<Rightarrow> if t > COMPENSATION then ([], ball) else useParry ball)"

definition parry_gen2 ::
  "real \<Rightarrow> string \<Rightarrow> Vector3 \<Rightarrow> Vector3 \<Rightarrow> BasePart \<Rightarrow> BallComponent
     \<Rightarrow> key_event list \<times> BallComponent" where
  "parry_gen2 gravity name' origin motion instance' ball =
     (if \<not> canParry ball then ([], ball)
      else if getTarget ball \<noteq> AString name' then ([], ball)
      else
        let position = sub (Position instance') origin
        in if Magnitude position < RADIUS_gen2 then useParry ball
           else
             let velocity = sub (AssemblyLinearVelocity instance') motion;
                 intercept = evaluateCylindricalCollision (X position) (Y position) (Z position)
                               (X velocity) (Y velocity) (Z velocity) gravity RADIUS_gen2 HEIGHT
             in case intercept of
                  None \<Rightarrow> ([], ball)
                | Some t \<Rightarrow> if t < Finite COMPENSATION then ([], ball) else useParry ball)"

text \<open>
  The bodies of the two \<open>Heartbeat\<close> connections. \<open>parts\<close> and \<open>characters\<close> give the
  objects behind the references the code follows.
\<close>

fun forEach_gen1 ::
  "(nat \<Rightarrow> BasePart) \<Rightarrow> string \<Rightarrow> Vector3 \<Rightarrow> Vector3 \<Rightarrow> (nat \<times> BallComponent) list
     \<Rightarrow> key_event list \<times> (nat \<times> BallComponent) list" where
  "forEach_gen1 parts name' origin motion [] = ([], [])"
| "forEach_gen1 parts name' origin motion ((instance', ball) # rest) =
     (let (keys, ball') = parry_gen1 name' origin motion (parts instance') ball;
          (keys', rest') = forEach_gen1 parts name' origin motion rest
      in (keys @ keys', (instance', ball') # rest'))"

definition Heartbeat_gen1 ::
  "(nat \<Rightarrow> BasePart) \<Rightarrow> (nat \<Rightarrow> CharacterComponent) \<Rightarrow> PlayerComponent
     \<Rightarrow> (nat \<times> BallComponent) list \<Rightarrow> key_event list \<times> (nat \<times> BallComponent) list" where
  "Heartbeat_gen1 parts characters player BallComponent_active =
     (case getCharacter player of
        None \<Rightarrow> ([], BallComponent_active)
      | Some c \<Rightarrow>
          let character' = characters c;
              name' = getName player;
              root' = parts (root character');
              origin = Position root';
              motion = mul (AssemblyLinearVelocity root') Vector2D
          in forEach_gen1 parts name' origin motion BallComponent_active)"

definition Heartbeat_gen2 ::
  "(nat \<Rightarrow> BasePart) \<Rightarrow> real \<Rightarrow> (nat \<Rightarrow> CharacterComponent) \<Rightarrow> PlayerComponent
     \<Rightarrow> BallComponent option \<Rightarrow> key_event list \<times> BallComponent option" where
  "Heartbeat_gen2 parts gravity characters player BallComponent_active =
     (case BallComponent_active of
        None \<Rightarrow> ([], None)
      | Some ball \<Rightarrow>
          (case getCharacter player of
             None \<Rightarrow> ([], Some ball)
           | Some c \<Rightarrow>
               let character' = characters c;
                   name' = getName player;
                   root' = parts (root character');
                   origin = Position root';
                   motion = mul (AssemblyLinearVelocity root') Vector2D;
                   instance' = parts (inst ball);
                   (keys, ball') = parry_gen2 gravity name' origin motion instance' ball
               in (keys, Some ball')))"

text \<open>
  An environment for the decision loop: part \<open>0\<close> is the agent's root part, at rest at
  the origin, and every other part is a ball at the given position with the given
  velocity.
\<close>

definition duel_parts :: "Vector3 \<Rightarrow> Vector3 \<Rightarrow> nat \<Rightarrow> BasePart" where
  "duel_parts position velocity p =
     (if p = 0
      then \<lparr>Position = \<lparr>X = 0, Y = 0, Z = 0\<rparr>,
            AssemblyLinearVelocity = \<lparr>X = 0, Y = 0, Z = 0\<rparr>, GetAttribute = (\<lambda>k. ANil)\<rparr>
      else \<lparr>Position = position, AssemblyLinearVelocity = velocity,
            GetAttribute = (\<lambda>k. ANil)\<rparr>)"

section \<open>Ball components (second generation)\<close>

text \<open>
  The state the ball components live in: the connections that are connected, the
  instances of the environment, the components created so far (a component's address is
  its index) and the static field \<open>BallComponent.active\<close>.
\<close>

record Signals =
  connected :: "handle set"

record BallWorld = Signals +
  parts :: "nat \<Rightarrow> BasePart"
  ballComponents :: "BallComponent list"
  BallComponent_active :: "nat option"

definition updateTarget :: "nat \<Rightarrow> BallWorld \<Rightarrow> BallWorld" where
  "updateTarget this w =
     (let ball = ballComponents w ! this;
          ball1 = ball\<lparr>isHit := False\<rparr>;
          ball2 = ball1\<lparr>target := GetAttribute (parts w (inst ball1)) ''target''\<rparr>
      in w\<lparr>ballComponents := (ballComponents w)[this := ball2]\<rparr>)"

definition updateActive :: "nat \<Rightarrow> BallWorld \<Rightarrow> BallWorld" where
  "updateActive this w =
     (let ball = ballComponents w ! this;
          ball1 = ball\<lparr>isHit := False\<rparr>;
          ball2 = ball1\<lparr>active := (GetAttribute (parts w (inst ball1)) ''realBall'' = ABool True)\<rparr>;
          w1 = w\<lparr>ballComponents := (ballComponents w)[this := ball2]\<rparr>
      in if active ball2 then w1\<lparr>BallComponent_active := Some this\<rparr>
         else if BallComponent_active w1 = Some this then w1\<lparr>BallComponent_active := None\<rparr>
         else w1)"

definition Connect :: "handle \<Rightarrow> 'a Signals_scheme \<Rightarrow> 'a Signals_scheme" where
  "Connect h w = w\<lparr>connected := insert h (connected w)\<rparr>"

text \<open>
  The constructor: the object with its field initialisers, \<open>updateActive()\<close>,
  \<open>updateTarget()\<close>, and the two \<open>bin.batch\<close> calls with the connections they make.
\<close>

definition new_BallComponent :: "nat \<Rightarrow> BallWorld \<Rightarrow> BallWorld" where
  "new_BallComponent instance' w =
     (let this = length (ballComponents w);
          w1 = w\<lparr>ballComponents := ballComponents w @
                 [\<lparr>inst = instance', bin = new_Bin, active = False, target = AString [],
                   isHit = False\<rparr>]\<rparr>;
          w2 = updateActive this w1;
          w3 = updateTarget this w2;
          w4 = Connect (target_changed this) (Connect (realBall_changed this) w3);
          bin1 = Bin_batch (bin (ballComponents w4 ! this))
                   [Connection (realBall_changed this), Connection (target_changed this)];
          w5 = Connect (ball_Destroying this) w4;
          bin2 = Bin_batch bin1 [Callback (unregister_ball this), Connection (ball_Destroying this)]
      in w5\<lparr>ballComponents := (ballComponents w5)[this := (ballComponents w5 ! this)\<lparr>bin := bin2\<rparr>]\<rparr>)"

text \<open>
  What disposing an item of a ball component's bin does: a connection is disconnected,
  and the unregistering function clears \<open>BallComponent.active\<close> when it is this
  component. \<open>destroy()\<close> runs the bin's \<open>destroy()\<close> and the disposals it performs.
\<close>

fun disposed :: "BallWorld \<Rightarrow> handle disposal \<Rightarrow> BallWorld" where
  "disposed w (Disconnected h) = w\<lparr>connected := connected w - {h}\<rparr>"
| "disposed w (Called (unregister_ball this)) =
     (if BallComponent_active w = Some this then w\<lparr>BallComponent_active := None\<rparr> else w)"
| "disposed w d = w"

definition BallComponent_destroy :: "nat \<Rightarrow> BallWorld \<Rightarrow> BallWorld option" where
  "BallComponent_destroy this w =
     (case Bin_destroy quiet (bin (ballComponents w ! this)) [] of
        None \<Rightarrow> None
      | Some (threw, bin', ds) \<Rightarrow>
          Some (foldl disposed
                  (w\<lparr>ballComponents :=
                       (ballComponents w)[this := (ballComponents w ! this)\<lparr>bin := bin'\<rparr>]\<rparr>)
                  ds))"

definition BallComponent_debounce :: "nat \<Rightarrow> BallWorld \<Rightarrow> BallWorld" where
  "BallComponent_debounce this w =
     w\<lparr>ballComponents := (ballComponents w)[this := debounce (ballComponents w ! this)]\<rparr>"

text \<open>
  The operations reach a component through events. \<open>updateActive\<close> and
  \<open>updateTarget\<close> are private: besides the constructor only the attribute connections
  call them, so an attribute change runs them on the components of that instance whose
  connection is still connected; \<open>Destroying\<close> runs \<open>destroy()\<close> the same way;
  \<open>debounce()\<close> and \<open>destroy()\<close> are public and may be called on any component.
\<close>

datatype ball_event =
    BallAdded nat
  | AttributeChanged nat string attribute
  | Destroying nat
  | CallDebounce nat
  | CallDestroy nat

fun fire_changed :: "(nat \<Rightarrow> handle) \<Rightarrow> (nat \<Rightarrow> BallWorld \<Rightarrow> BallWorld) \<Rightarrow> nat \<Rightarrow> nat list
    \<Rightarrow> BallWorld \<Rightarrow> BallWorld" where
  "fire_changed conn handler p [] w = w"
| "fire_changed conn handler p (this # rest) w =
     fire_changed conn handler p rest
       (if inst (ballComponents w ! this) = p \<and> conn this \<in> connected w
        then handler this w else w)"

fun fire_Destroying :: "nat \<Rightarrow> nat list \<Rightarrow> BallWorld \<Rightarrow> BallWorld option" where
  "fire_Destroying p [] w = Some w"
| "fire_Destroying p (this # rest) w =
     (if inst (ballComponents w ! this) = p \<and> ball_Destroying this \<in> connected w
      then (case BallComponent_destroy this w of
              None \<Rightarrow> None
            | Some w' \<Rightarrow> fire_Destroying p rest w')
      else fire_Destroying p rest w)"

definition SetAttribute :: "nat \<Rightarrow> string \<Rightarrow> attribute \<Rightarrow> BallWorld \<Rightarrow> BallWorld" where
  "SetAttribute p k v w =
     w\<lparr>parts := (parts w)(p := (parts w p)\<lparr>GetAttribute := (GetAttribute (parts w p))(k := v)\<rparr>)\<rparr>"

fun ball_step :: "ball_event \<Rightarrow> BallWorld \<Rightarrow> BallWorld option" where
  "ball_step (BallAdded p) w = Some (new_BallComponent p w)"
| "ball_step (AttributeChanged p k v) w =
     (let w1 = SetAttribute p k v w;
          all = [0..<length (ballComponents w1)]
      in Some (if k = ''realBall'' then fire_changed realBall_changed updateActive p all w1
               else if k = ''target'' then fire_changed target_changed updateTarget p all w1
               else w1))"
| "ball_step (Destroying p) w = fire_Destroying p [0..<length (ballComponents w)] w"
| "ball_step (CallDebounce this) w =
     (if this < length (ballComponents w) then Some (BallComponent_debounce this w) else Some w)"
| "ball_step (CallDestroy this) w =
     (if this < length (ballComponents w) then BallComponent_destroy this w else Some w)"

fun ball_run :: "ball_event list \<Rightarrow> BallWorld \<Rightarrow> BallWorld option" where
  "ball_run [] w = Some w"
| "ball_run (e # es) w = (case ball_step e w of None \<Rightarrow> None | Some w' \<Rightarrow> ball_run es w')"

definition initial_BallWorld :: "(nat \<Rightarrow> BasePart) \<Rightarrow> BallWorld" where
  "initial_BallWorld ps =
     \<lparr>connected = {}, parts = ps, ballComponents = [], BallComponent_active = None\<rparr>"

text \<open>An environment whose parts carry no attributes.\<close>

definition still_parts :: "nat \<Rightarrow> BasePart" where
  "still_parts p = \<lparr>Position = \<lparr>X = 0, Y = 0, Z = 0\<rparr>,
                    AssemblyLinearVelocity = \<lparr>X = 0, Y = 0, Z = 0\<rparr>,
                    GetAttribute = (\<lambda>k. ANil)\<rparr>"

text \<open>
  The invariant of the ball components: a component's bin holds its four items or is
  empty with its connections disconnected, and \<open>BallComponent.active\<close>, when defined,
  is a component that is active and not destroyed.
\<close>

definition ball_handles :: "nat \<Rightarrow> handle Destructible list" where
  "ball_handles this =
     [Connection (realBall_changed this), Connection (target_changed this),
      Callback (unregister_ball this), Connection (ball_Destroying this)]"

definition ball_ok :: "BallWorld \<Rightarrow> nat \<Rightarrow> bool" where
  "ball_ok w this \<longleftrightarrow>
     Bin_inv (bin (ballComponents w ! this))
     \<and> (Bin_items (bin (ballComponents w ! this)) = ball_handles this
        \<or> Bin_items (bin (ballComponents w ! this)) = []
          \<and> realBall_changed this \<notin> connected w
          \<and> target_changed this \<notin> connected w
          \<and> ball_Destroying this \<notin> connected w)"

definition active_ok :: "BallWorld \<Rightarrow> bool" where
  "active_ok w \<longleftrightarrow>
     (case BallComponent_active w of
        None \<Rightarrow> True
      | Some this \<Rightarrow>
          this < length (ballComponents w)
          \<and> \<not> destroyed (ballComponents w ! this)
          \<and> isActive (ballComponents w ! this))"

definition BallWorld_inv :: "BallWorld \<Rightarrow> bool" where
  "BallWorld_inv w \<longleftrightarrow> (\<forall>this < length (ballComponents w). ball_ok w this) \<and> active_ok w"

section \<open>Players and characters\<close>

text \<open>
  One player's component and the character components it creates. A \<open>Model\<close> gives
  the two children a rig needs, once the model has them. \<open>WaitForChild\<close> is called
  without a timeout: it returns the child when the model has one of that name and
  otherwise suspends the calling thread until it has, so the tests for \<open>undefined\<close>
  that follow the two calls never hold, and a thread that runs \<open>onCharacterAdded\<close> may
  be suspended inside the constructor of \<open>RigComponent\<close> at either call while other
  handlers run. \<open>threads\<close> are the suspended threads, each with the locals it needs to
  go on. \<open>CharacterComponent.active\<close> and \<open>PlayerComponent.active\<close> are the static
  maps, as association lists.
\<close>

record Model =
  HumanoidRootPart :: "nat option"
  Humanoid :: "nat option"

datatype thread =
    WaitForChild_HumanoidRootPart nat
  | WaitForChild_Humanoid nat nat

record PlayerWorld = Signals +
  models :: "nat \<Rightarrow> Model"
  characterComponents :: "CharacterComponent list"
  CharacterComponent_active :: "(nat \<times> nat) list"
  playerComponent :: PlayerComponent
  PlayerComponent_active :: "(nat \<times> nat) list"
  threads :: "thread list"

text \<open>
  \<open>this.character = new CharacterComponent(character)\<close>, from each of the two
  \<open>WaitForChild\<close> calls of the constructor of \<open>RigComponent\<close> (which is all of
  \<open>CharacterComponent\<close>'s) on. Without the child the thread is suspended at the call.
  With it the constructor goes on; after the second call it allocates the component
  with its two connections and returns, and \<open>onCharacterAdded\<close> stores the component
  in \<open>this.character\<close>. A component gets its address when its constructor returns.
  \<open>CharacterComponent.active\<close> is not written.
\<close>

definition from_WaitForChild_Humanoid :: "nat \<Rightarrow> nat \<Rightarrow> PlayerWorld \<Rightarrow> PlayerWorld" where
  "from_WaitForChild_Humanoid instance' root' w =
     (case Humanoid (models w instance') of
        None \<Rightarrow> w\<lparr>threads := threads w @ [WaitForChild_Humanoid instance' root']\<rparr>
      | Some humanoid' \<Rightarrow>
          let this = length (characterComponents w);
              w1 = Connect (model_Destroying this) (Connect (humanoid_Died this) w);
              bin1 = Bin_batch new_Bin
                       [Connection (humanoid_Died this), Connection (model_Destroying this)];
              w2 = w1\<lparr>characterComponents := characterComponents w1 @
                      [\<lparr>inst = instance', bin = bin1, root = root', humanoid = humanoid'\<rparr>]\<rparr>
          in w2\<lparr>playerComponent := (playerComponent w2)\<lparr>character := Some this\<rparr>\<rparr>)"

definition from_WaitForChild_HumanoidRootPart :: "nat \<Rightarrow> PlayerWorld \<Rightarrow> PlayerWorld" where
  "from_WaitForChild_HumanoidRootPart instance' w =
     (case HumanoidRootPart (models w instance') of
        None \<Rightarrow> w\<lparr>threads := threads w @ [WaitForChild_HumanoidRootPart instance']\<rparr>
      | Some root' \<Rightarrow> from_WaitForChild_Humanoid instance' root' w)"

fun resume :: "thread \<Rightarrow> PlayerWorld \<Rightarrow> PlayerWorld" where
  "resume (WaitForChild_HumanoidRootPart instance') w =
     from_WaitForChild_HumanoidRootPart instance' w"
| "resume (WaitForChild_Humanoid instance' root') w =
     from_WaitForChild_Humanoid instance' root' w"

text \<open>
  What disposing an item of a component's bin does: a connection is disconnected, and
  the unregistering function of a \<open>PlayerComponent\<close> deletes its player from
  \<open>PlayerComponent.active\<close>. \<open>destroy()\<close> runs the bin's \<open>destroy()\<close> and the
  disposals it performs.
\<close>

fun rig_disposed :: "PlayerWorld \<Rightarrow> handle disposal \<Rightarrow> PlayerWorld" where
  "rig_disposed w (Disconnected h) = w\<lparr>connected := connected w - {h}\<rparr>"
| "rig_disposed w (Called (unregister_player this)) =
     w\<lparr>PlayerComponent_active :=
         filter (\<lambda>(k, v). k \<noteq> inst (playerComponent w)) (PlayerComponent_active w)\<rparr>"
| "rig_disposed w d = w"

definition CharacterComponent_destroy :: "nat \<Rightarrow> PlayerWorld \<Rightarrow> PlayerWorld option" where
  "CharacterComponent_destroy this w =
     (case Bin_destroy quiet (bin (characterComponents w ! this)) [] of
        None \<Rightarrow> None
      | Some (threw, bin', ds) \<Rightarrow>
          Some (foldl rig_disposed
                  (w\<lparr>characterComponents :=
                       (characterComponents w)[this := (characterComponents w ! this)\<lparr>bin := bin'\<rparr>]\<rparr>)
                  ds))"

definition PlayerComponent_destroy :: "PlayerWorld \<Rightarrow> PlayerWorld option" where
  "PlayerComponent_destroy w =
     (case Bin_destroy quiet (bin (playerComponent w)) [] of
        None \<Rightarrow> None
      | Some (threw, bin', ds) \<Rightarrow>
          Some (foldl rig_disposed (w\<lparr>playerComponent := (playerComponent w)\<lparr>bin := bin'\<rparr>\<rparr>) ds))"

text \<open>\<open>this.character?.destroy()\<close>\<close>

definition destroy_character :: "PlayerWorld \<Rightarrow> PlayerWorld option" where
  "destroy_character w =
     (case character (playerComponent w) of
        None \<Rightarrow> Some w
      | Some c \<Rightarrow> CharacterComponent_destroy c w)"

text \<open>
  The two handlers of a \<open>PlayerComponent\<close>, each up to the point where its thread
  ends or is suspended; the \<open>option\<close> is \<open>None\<close> when a bin's loop does not return.
\<close>

definition onCharacterAdded :: "nat \<Rightarrow> PlayerWorld \<Rightarrow> PlayerWorld option" where
  "onCharacterAdded character' w =
     (case destroy_character w of
        None \<Rightarrow> None
      | Some w1 \<Rightarrow> Some (from_WaitForChild_HumanoidRootPart character' w1))"

definition onCharacterRemoving :: "PlayerWorld \<Rightarrow> PlayerWorld option" where
  "onCharacterRemoving w =
     (case destroy_character w of
        None \<Rightarrow> None
      | Some w1 \<Rightarrow> Some (w1\<lparr>playerComponent := (playerComponent w1)\<lparr>character := None\<rparr>\<rparr>))"

text \<open>
  The constructor of \<open>PlayerComponent\<close> for the player \<open>instance'\<close> with the given
  \<open>Name\<close> and \<open>Character\<close>. \<open>task.spawn\<close> runs \<open>onCharacterAdded\<close> at once, until
  it ends or is suspended, and the constructor goes on from there: it connects the two
  signals, puts the unregistering function into the bin and registers the component in
  \<open>PlayerComponent.active\<close>.
\<close>

definition new_PlayerComponent ::
  "nat \<Rightarrow> string \<Rightarrow> nat option \<Rightarrow> (nat \<Rightarrow> Model) \<Rightarrow> PlayerWorld option" where
  "new_PlayerComponent instance' Name' Character ms =
     (let w0 = \<lparr>connected = {}, models = ms, characterComponents = [],
                 CharacterComponent_active = [],
                 playerComponent = \<lparr>inst = instance', bin = new_Bin, name = Name', character = None\<rparr>,
                 PlayerComponent_active = [], threads = []\<rparr>;
          spawned = (case Character of
                       None \<Rightarrow> Some w0
                     | Some character' \<Rightarrow> onCharacterAdded character' w0)
      in case spawned of
           None \<Rightarrow> None
         | Some w1 \<Rightarrow>
             let w2 = Connect (CharacterRemoving 0) (Connect (CharacterAdded 0) w1);
                 bin1 = Bin_batch (bin (playerComponent w2))
                          [Connection (CharacterAdded 0), Connection (CharacterRemoving 0)];
                 bin2 = Bin_add bin1 (Callback (unregister_player 0))
             in Some (w2\<lparr>playerComponent := (playerComponent w2)\<lparr>bin := bin2\<rparr>,
                        PlayerComponent_active := [(instance', 0)]\<rparr>))"

text \<open>
  The events of a player: its two character signals, a child added to a model, the
  scheduler resuming a suspended thread (which is suspended again when the child it
  waits for is still missing), \<open>Died\<close> of a humanoid, \<open>Destroying\<close> of a model, and
  \<open>PlayerRemoving\<close>. A handler runs only while its connection is connected. A child
  added under a name the model already has a child of does not replace the child that
  \<open>WaitForChild\<close> finds.
\<close>

datatype player_event =
    CharacterAdded_fired nat
  | CharacterRemoving_fired
  | ChildAdded_fired nat string nat
  | Resumed nat
  | Died_fired nat
  | Destroying_fired nat
  | PlayerRemoving_fired

definition add_child :: "string \<Rightarrow> nat \<Rightarrow> Model \<Rightarrow> Model" where
  "add_child name' child model =
     (if name' = ''HumanoidRootPart'' \<and> HumanoidRootPart model = None
      then model\<lparr>HumanoidRootPart := Some child\<rparr>
      else if name' = ''Humanoid'' \<and> Humanoid model = None
      then model\<lparr>Humanoid := Some child\<rparr>
      else model)"

fun fire_rig ::
  "(CharacterComponent \<Rightarrow> nat) \<Rightarrow> (nat \<Rightarrow> handle) \<Rightarrow> nat \<Rightarrow> nat list \<Rightarrow> PlayerWorld
     \<Rightarrow> PlayerWorld option" where
  "fire_rig source conn x [] w = Some w"
| "fire_rig source conn x (this # rest) w =
     (if source (characterComponents w ! this) = x \<and> conn this \<in> connected w
      then (case CharacterComponent_destroy this w of
              None \<Rightarrow> None
            | Some w' \<Rightarrow> fire_rig source conn x rest w')
      else fire_rig source conn x rest w)"

fun player_step :: "player_event \<Rightarrow> PlayerWorld \<Rightarrow> PlayerWorld option" where
  "player_step (CharacterAdded_fired m) w =
     (if CharacterAdded 0 \<in> connected w then onCharacterAdded m w else Some w)"
| "player_step CharacterRemoving_fired w =
     (if CharacterRemoving 0 \<in> connected w then onCharacterRemoving w else Some w)"
| "player_step (ChildAdded_fired m name' child) w =
     Some (w\<lparr>models := (models w)(m := add_child name' child (models w m))\<rparr>)"
| "player_step (Resumed k) w =
     (if k < length (threads w)
      then Some (resume (threads w ! k)
                   (w\<lparr>threads := take k (threads w) @ drop (Suc k) (threads w)\<rparr>))
      else Some w)"
| "player_step (Died_fired h) w =
     fire_rig humanoid humanoid_Died h [0..<length (characterComponents w)] w"
| "player_step (Destroying_fired m) w =
     fire_rig inst model_Destroying m [0..<length (characterComponents w)] w"
| "player_step PlayerRemoving_fired w =
     (if map_of (PlayerComponent_active w) (inst (playerComponent w)) = None then Some w
      else PlayerComponent_destroy w)"

fun player_run :: "player_event list \<Rightarrow> PlayerWorld \<Rightarrow> PlayerWorld option" where
  "player_run [] w = Some w"
| "player_run (e # es) w =
     (case player_step e w of None \<Rightarrow> None | Some w' \<Rightarrow> player_run es w')"

text \<open>
  The character components that have not been destroyed, by address; \<open>rigged\<close> is an
  environment in which every model has both children, and \<open>bare\<close> one in which no
  model has any.
\<close>

definition live_characters :: "PlayerWorld \<Rightarrow> nat list" where
  "live_characters w =
     filter (\<lambda>this. \<not> destroyed (characterComponents w ! this))
       [0..<length (characterComponents w)]"

definition rigged :: "nat \<Rightarrow> Model" where
  "rigged m = \<lparr>HumanoidRootPart = Some m, Humanoid = Some m\<rparr>"

definition bare :: "nat \<Rightarrow> Model" where
  "bare m = \<lparr>HumanoidRootPart = None, Humanoid = None\<rparr>"

text \<open>
  The bins of a player's world are well formed, and the character the player's
  component holds is a component that exists.
\<close>

definition bins_ok :: "PlayerWorld \<Rightarrow> bool" where
  "bins_ok w \<longleftrightarrow>
     (\<forall>this < length (characterComponents w). Bin_inv (bin (characterComponents w ! this)))
     \<and> Bin_inv (bin (playerComponent w))
     \<and> (\<forall>c. character (playerComponent w) = Some c \<longrightarrow> c < length (characterComponents w))"

section \<open>Quadratic equations over the reals\<close>

lemma quadratic_complete_square:
  fixes a b c t :: real
  shows "4 * a * (a * t\<^sup>2 + b * t + c) = (2 * a * t + b)\<^sup>2 - (b\<^sup>2 - 4 * a * c)"
  by (simp add: power2_eq_square algebra_simps)

lemma quadratic_no_root:
  fixes a b c t :: real
  assumes "b\<^sup>2 - 4 * a * c < 0"
  shows "a * t\<^sup>2 + b * t + c \<noteq> 0"
proof
  assume "a * t\<^sup>2 + b * t + c = 0"
  then have "(2 * a * t + b)\<^sup>2 = b\<^sup>2 - 4 * a * c"
    using quadratic_complete_square [of a t b c] by simp
  moreover have "0 \<le> (2 * a * t + b)\<^sup>2" by simp
  ultimately show False using assms by linarith
qed

lemma quadratic_roots:
  fixes a b c t :: real
  assumes a: "a \<noteq> 0" and d: "0 \<le> b\<^sup>2 - 4 * a * c"
  shows "a * t\<^sup>2 + b * t + c = 0 \<longleftrightarrow>
         t = (- b - sqrt (b\<^sup>2 - 4 * a * c)) / (2 * a) \<or>
         t = (- b + sqrt (b\<^sup>2 - 4 * a * c)) / (2 * a)"
proof -
  let ?d = "b\<^sup>2 - 4 * a * c"
  have "a * t\<^sup>2 + b * t + c = 0 \<longleftrightarrow> 4 * a * (a * t\<^sup>2 + b * t + c) = 0"
    using a by simp
  also have "\<dots> \<longleftrightarrow> (2 * a * t + b)\<^sup>2 = (sqrt ?d)\<^sup>2"
    using d by (simp add: quadratic_complete_square)
  also have "\<dots> \<longleftrightarrow> 2 * a * t + b = sqrt ?d \<or> 2 * a * t + b = - sqrt ?d"
    by (rule power2_eq_iff)
  also have "\<dots> \<longleftrightarrow> t = (- b - sqrt ?d) / (2 * a) \<or> t = (- b + sqrt ?d) / (2 * a)"
    using a by (auto simp: field_simps)
  finally show ?thesis .
qed

lemma sphere_equation_quadratic:
  fixes x y z vx vy vz R t :: real
  shows "(x + vx * t)\<^sup>2 + (y + vy * t)\<^sup>2 + (z + vz * t)\<^sup>2 = R\<^sup>2 \<longleftrightarrow>
         (vx\<^sup>2 + vy\<^sup>2 + vz\<^sup>2) * t\<^sup>2 + (2 * (vx * x + vy * y + vz * z)) * t
           + (x\<^sup>2 + y\<^sup>2 + z\<^sup>2 - R\<^sup>2) = 0"
  by (simp add: power2_eq_square algebra_simps)

lemma speed_sq_pos:
  fixes vx vy vz :: real
  assumes "vx \<noteq> 0 \<or> vy \<noteq> 0 \<or> vz \<noteq> 0"
  shows "0 < vx\<^sup>2 + vy\<^sup>2 + vz\<^sup>2"
proof -
  have "0 \<le> vx\<^sup>2" "0 \<le> vy\<^sup>2" "0 \<le> vz\<^sup>2" by simp_all
  moreover have "0 < vx\<^sup>2 \<or> 0 < vy\<^sup>2 \<or> 0 < vz\<^sup>2" using assms by auto
  ultimately show ?thesis by linarith
qed

section \<open>The sphere solver returns the least positive root\<close>

lemma sphere_roots_empty:
  fixes x y z vx vy vz R :: real
  assumes "(2 * (vx * x + vy * y + vz * z))\<^sup>2
           - 4 * (vx\<^sup>2 + vy\<^sup>2 + vz\<^sup>2) * (x\<^sup>2 + y\<^sup>2 + z\<^sup>2 - R\<^sup>2) < 0"
  shows "sphere_roots x y z vx vy vz R = {}"
  unfolding sphere_roots_def sphere_equation_quadratic
  using quadratic_no_root [OF assms] by simp

lemma sphere_roots_pair:
  fixes x y z vx vy vz R :: real
  defines "a \<equiv> vx\<^sup>2 + vy\<^sup>2 + vz\<^sup>2"
    and "b \<equiv> 2 * (vx * x + vy * y + vz * z)"
    and "c \<equiv> x\<^sup>2 + y\<^sup>2 + z\<^sup>2 - R\<^sup>2"
  assumes v: "vx \<noteq> 0 \<or> vy \<noteq> 0 \<or> vz \<noteq> 0" and d: "0 \<le> b\<^sup>2 - 4 * a * c"
  shows "sphere_roots x y z vx vy vz R =
         {(- b - sqrt (b\<^sup>2 - 4 * a * c)) / (2 * a), (- b + sqrt (b\<^sup>2 - 4 * a * c)) / (2 * a)}"
proof -
  have "a \<noteq> 0" using speed_sq_pos [OF v] by (simp add: a_def)
  from quadratic_roots [OF this d]
  show ?thesis
    unfolding sphere_roots_def sphere_equation_quadratic a_def b_def c_def by auto
qed

lemma Min_pair: "(p::real) \<le> q \<Longrightarrow> Min {p, q} = p"
  by simp
lemma Max_pair: "(p::real) \<le> q \<Longrightarrow> Max {p, q} = q"
  by simp

text \<open>
  Claim C1. For a non-zero relative velocity the solutions of \<open>|p + v t|\<^sup>2 = R\<^sup>2\<close> are
  finitely many, and \<open>evaluateIntercept\<close> returns the smaller one when it is strictly
  positive, otherwise the larger one when that is strictly positive, otherwise nothing;
  with no real solution (a negative discriminant) it returns nothing.
\<close>

theorem evaluateIntercept_roots:
  fixes x y z vx vy vz R :: real
  assumes v: "vx \<noteq> 0 \<or> vy \<noteq> 0 \<or> vz \<noteq> 0"
  shows "finite (sphere_roots x y z vx vy vz R) \<and>
         evaluateIntercept x y z vx vy vz R =
           (if sphere_roots x y z vx vy vz R = {} then None
            else if 0 < Min (sphere_roots x y z vx vy vz R)
              then Some (Min (sphere_roots x y z vx vy vz R))
            else if 0 < Max (sphere_roots x y z vx vy vz R)
              then Some (Max (sphere_roots x y z vx vy vz R))
            else None)"
proof -
  define a where "a = vx\<^sup>2 + vy\<^sup>2 + vz\<^sup>2"
  define b where "b = 2 * (vx * x + vy * y + vz * z)"
  define c where "c = x\<^sup>2 + y\<^sup>2 + z\<^sup>2 - R\<^sup>2"
  define d where "d = b\<^sup>2 - 4 * a * c"
  define t0 where "t0 = (- b - sqrt d) / (2 * a)"
  define t1 where "t1 = (- b + sqrt d) / (2 * a)"
  have a: "0 < a" using speed_sq_pos [OF v] by (simp add: a_def)
  have ev: "evaluateIntercept x y z vx vy vz R =
      (if d < 0 then None else if t0 > 0 then Some t0 else if t1 > 0 then Some t1 else None)"
    by (simp add: evaluateIntercept_def Let_def a_def b_def c_def d_def t0_def t1_def)
  show ?thesis
  proof (cases "d < 0")
    case True
    then have "sphere_roots x y z vx vy vz R = {}"
      unfolding d_def a_def b_def c_def by (rule sphere_roots_empty)
    then show ?thesis using True ev by simp
  next
    case False
    then have d: "0 \<le> d" by simp
    have S: "sphere_roots x y z vx vy vz R = {t0, t1}"
      using sphere_roots_pair [OF v, of x y z R] d
      unfolding d_def a_def b_def c_def t0_def t1_def by simp
    have "- b - sqrt d \<le> - b + sqrt d" using d by simp
    then have le: "t0 \<le> t1"
      unfolding t0_def t1_def using a by (simp add: divide_right_mono)
    show ?thesis
      unfolding S using False ev le by (simp add: Min_pair Max_pair)
  qed
qed

lemma sqrt_1600: "sqrt 1600 = 40"
  by (rule real_sqrt_unique) simp_all

theorem evaluateIntercept_roots_witness:
  "evaluateIntercept 0 0 5 0 0 (- 10) 2 = Some (3 / 10) \<and>
   finite (sphere_roots 0 0 5 0 0 (- 10) 2) \<and>
   sphere_roots 0 0 5 0 0 (- 10) 2 \<noteq> {}"
proof -
  have v: "(0::real) \<noteq> 0 \<or> (0::real) \<noteq> 0 \<or> (- 10::real) \<noteq> 0" by simp
  have e: "evaluateIntercept 0 0 5 0 0 (- 10) 2 = Some (3 / 10)"
    by (simp add: evaluateIntercept_def Let_def sqrt_1600)
  show ?thesis
    using evaluateIntercept_roots [OF v, where x = 0 and y = 0 and z = 5 and R = 2] e
    by (auto split: if_splits)
qed

section \<open>A receding projectile never meets the sphere\<close>

lemma evaluateIntercept_receding:
  fixes x y z vx vy vz R :: real
  assumes a: "0 < vx\<^sup>2 + vy\<^sup>2 + vz\<^sup>2"
    and b: "0 \<le> vx * x + vy * y + vz * z"
    and c: "0 < x\<^sup>2 + y\<^sup>2 + z\<^sup>2 - R\<^sup>2"
  shows "evaluateIntercept x y z vx vy vz R = None"
proof -
  define a' where "a' = vx\<^sup>2 + vy\<^sup>2 + vz\<^sup>2"
  define b' where "b' = 2 * (vx * x + vy * y + vz * z)"
  define c' where "c' = x\<^sup>2 + y\<^sup>2 + z\<^sup>2 - R\<^sup>2"
  define d where "d = b'\<^sup>2 - 4 * a' * c'"
  have ev: "evaluateIntercept x y z vx vy vz R =
      (if d < 0 then None
       else if (- b' - sqrt d) / (2 * a') > 0 then Some ((- b' - sqrt d) / (2 * a'))
       else if (- b' + sqrt d) / (2 * a') > 0 then Some ((- b' + sqrt d) / (2 * a'))
       else None)"
    by (simp add: evaluateIntercept_def Let_def a'_def b'_def c'_def d_def)
  have a': "0 < a'" and b': "0 \<le> b'" and c': "0 < c'"
    using a b c by (simp_all add: a'_def b'_def c'_def)
  have "0 < a' * c'" using a' c' by simp
  then have "d < b'\<^sup>2" by (simp add: d_def)
  then have "sqrt d < sqrt (b'\<^sup>2)" by (simp only: real_sqrt_less_iff)
  then have lt: "sqrt d < b'" using b' by simp
  have n1: "\<not> (- b' + sqrt d) / (2 * a') > 0"
  proof -
    have "- b' + sqrt d \<le> 0" using lt by linarith
    then have "(- b' + sqrt d) / (2 * a') \<le> 0"
      using a' by (intro divide_nonpos_pos) simp_all
    then show ?thesis by linarith
  qed
  have n0: "\<not> (- b' - sqrt d) / (2 * a') > 0" if "0 \<le> d"
  proof -
    have "0 \<le> sqrt d" using that by simp
    then have "- b' - sqrt d \<le> 0" using b' by linarith
    then have "(- b' - sqrt d) / (2 * a') \<le> 0"
      using a' by (intro divide_nonpos_pos) simp_all
    then show ?thesis by linarith
  qed
  show ?thesis using ev n0 n1 by auto
qed

text \<open>
  Claim C5. When the relative velocity is a positive multiple of the relative position and
  the start point lies strictly outside the radius, \<open>evaluateIntercept\<close> returns nothing.
  The code uses the radius only squared, so "outside" is stated for \<open>\<bar>R\<bar>\<close>.
\<close>

theorem evaluateIntercept_moving_away:
  fixes x y z vx vy vz R k :: real
  assumes k: "0 < k" and vx: "vx = k * x" and vy: "vy = k * y" and vz: "vz = k * z"
    and out: "\<bar>R\<bar> < sqrt (x\<^sup>2 + y\<^sup>2 + z\<^sup>2)"
  shows "evaluateIntercept x y z vx vy vz R = None"
proof -
  have "sqrt (R\<^sup>2) < sqrt (x\<^sup>2 + y\<^sup>2 + z\<^sup>2)" using out by simp
  then have c: "R\<^sup>2 < x\<^sup>2 + y\<^sup>2 + z\<^sup>2" by (simp only: real_sqrt_less_iff)
  have "0 \<le> R\<^sup>2" by simp
  with c have p: "0 < x\<^sup>2 + y\<^sup>2 + z\<^sup>2" by linarith
  have a: "vx\<^sup>2 + vy\<^sup>2 + vz\<^sup>2 = k\<^sup>2 * (x\<^sup>2 + y\<^sup>2 + z\<^sup>2)"
    by (simp add: vx vy vz power_mult_distrib algebra_simps)
  have b: "vx * x + vy * y + vz * z = k * (x\<^sup>2 + y\<^sup>2 + z\<^sup>2)"
    by (simp add: vx vy vz power2_eq_square algebra_simps)
  have "0 < k\<^sup>2 * (x\<^sup>2 + y\<^sup>2 + z\<^sup>2)" using k p by simp
  moreover have "0 \<le> k * (x\<^sup>2 + y\<^sup>2 + z\<^sup>2)" using k p by simp
  ultimately show ?thesis
    using c by (intro evaluateIntercept_receding) (simp_all only: a b diff_gt_0_iff_gt)
qed

lemma sqrt_25: "sqrt 25 = 5"
  by (rule real_sqrt_unique) simp_all

theorem evaluateIntercept_moving_away_witness:
  "(0::real) < 2 \<and> \<bar>2::real\<bar> < sqrt (0\<^sup>2 + 0\<^sup>2 + 5\<^sup>2) \<and>
   evaluateIntercept 0 0 5 0 0 10 2 = None"
  using evaluateIntercept_moving_away [where k = 2 and x = 0 and y = 0 and z = 5 and R = 2
      and vx = 0 and vy = 0 and vz = 10]
  by (simp add: sqrt_25)

section \<open>Arithmetic of numbers\<close>

lemma number_power2 [simp]: "(t::number)\<^sup>2 = t * t"
  by (cases t) (simp_all add: numeral_2_eq_2 one_number_def)

lemma math_max_Finite [simp]: "math_max (Finite a) (Finite b) = Finite (max a b)"
  by (simp add: math_max_def max_def)

lemma math_max_NaN [simp]: "math_max NaN b = NaN"
  by (simp add: math_max_def)

lemma less_Finite_cases:
  assumes "Finite m < t"
  obtains u where "t = Finite u" and "m < u" | "t = PosInf"
  using assms by (cases t) simp_all

lemma not_greater_NaN [simp]: "\<not> (NaN::number) < t"
  by (cases t) simp_all

lemma not_less_NaN [simp]: "\<not> t < (NaN::number)"
  by (cases t) simp_all

section \<open>The cylinder solver: radius entry and cap crossings\<close>

lemma radius_complete_square:
  fixes x z vx vz R t :: real
  shows "(vx\<^sup>2 + vz\<^sup>2) * ((x + vx * t)\<^sup>2 + (z + vz * t)\<^sup>2 - R\<^sup>2) =
         ((vx\<^sup>2 + vz\<^sup>2) * t - (- vx * x - vz * z))\<^sup>2
           - (R\<^sup>2 * (vx\<^sup>2 + vz\<^sup>2) - (vx * z - vz * x)\<^sup>2)"
  by (simp add: power2_eq_square algebra_simps)

lemma radiusEntry_moving:
  "vx\<^sup>2 + vz\<^sup>2 \<noteq> 0 \<Longrightarrow>
   radiusEntry x z vx vz R
     = Finite ((- vx * x - vz * z - sqrt (R\<^sup>2 * (vx\<^sup>2 + vz\<^sup>2) - (vx * z - vz * x)\<^sup>2))
                 / (vx\<^sup>2 + vz\<^sup>2))"
  by (simp add: radiusEntry_def Let_def)

lemma radiusEntry_zero_speed:
  assumes "vx\<^sup>2 + vz\<^sup>2 = 0"
  shows "radiusEntry x z vx vz R = NaN"
proof -
  from assms have "vx = 0" and "vz = 0" by (simp_all add: sum_power2_eq_zero_iff)
  then show ?thesis by (simp add: radiusEntry_def Let_def)
qed

lemma radiusEntry_Finite:
  assumes "radiusEntry x z vx vz R = Finite t"
  shows "vx\<^sup>2 + vz\<^sup>2 \<noteq> 0
       \<and> t = (- vx * x - vz * z - sqrt (R\<^sup>2 * (vx\<^sup>2 + vz\<^sup>2) - (vx * z - vz * x)\<^sup>2))
                 / (vx\<^sup>2 + vz\<^sup>2)"
proof (cases "vx\<^sup>2 + vz\<^sup>2 = 0")
  case True
  then show ?thesis using assms radiusEntry_zero_speed [OF True, of x z R] by simp
next
  case False
  then show ?thesis using assms radiusEntry_moving [OF False, of x z R] by simp
qed

lemma radiusEntry_values:
  "(\<exists>r. radiusEntry x z vx vz R = Finite r) \<or> radiusEntry x z vx vz R = NaN"
  using radiusEntry_moving [of vx vz x z R] radiusEntry_zero_speed [of vx vz x z R] by blast

lemma radiusEntry_on_radius:
  fixes x z vx vz R :: real
  assumes d: "0 \<le> R\<^sup>2 * (vx\<^sup>2 + vz\<^sup>2) - (vx * z - vz * x)\<^sup>2"
    and r: "radiusEntry x z vx vz R = Finite t"
  shows "(x + vx * t)\<^sup>2 + (z + vz * t)\<^sup>2 = R\<^sup>2"
proof -
  define A where "A = vx\<^sup>2 + vz\<^sup>2"
  define b where "b = - vx * x - vz * z"
  define dd where "dd = R\<^sup>2 * A - (vx * z - vz * x)\<^sup>2"
  from radiusEntry_Finite [OF r] have nz: "A \<noteq> 0" and t: "t = (b - sqrt dd) / A"
    by (simp_all add: A_def b_def dd_def)
  have "A * t - b = - sqrt dd" using nz by (simp add: t)
  then have "(A * t - b)\<^sup>2 = dd" using d by (simp add: dd_def A_def)
  then have "A * ((x + vx * t)\<^sup>2 + (z + vz * t)\<^sup>2 - R\<^sup>2) = 0"
    using radius_complete_square [of vx vz x t z R] by (simp add: A_def b_def dd_def)
  then show ?thesis using nz by (auto simp: A_def)
qed

lemma cap_complete_square:
  fixes y vy ay t e :: real
  shows "2 * ay * (y + vy * t + 0.5 * ay * t\<^sup>2 - e) = (ay * t + vy)\<^sup>2 - (vy\<^sup>2 - 2 * ay * (y - e))"
  by (simp add: power2_eq_square algebra_simps)

lemma upper_cap_height:
  fixes y vy ay D :: real
  assumes ay: "ay \<noteq> 0" and d: "0 < vy\<^sup>2 + 2 * ay * (D - y)"
  shows "y + vy * ((- vy - sqrt (vy\<^sup>2 + 2 * ay * (D - y))) / ay)
           + 0.5 * ay * ((- vy - sqrt (vy\<^sup>2 + 2 * ay * (D - y))) / ay)\<^sup>2 = D"
proof -
  define u where "u = vy\<^sup>2 + 2 * ay * (D - y)"
  define t where "t = (- vy - sqrt u) / ay"
  have "ay * t + vy = - sqrt u" using ay by (simp add: t_def)
  then have "(ay * t + vy)\<^sup>2 = u" using d by (simp add: u_def)
  then have "2 * ay * (y + vy * t + 0.5 * ay * t\<^sup>2 - D) = 0"
    using cap_complete_square [of ay y vy t D] by (simp add: u_def algebra_simps)
  then show ?thesis using ay by (simp add: t_def u_def)
qed

lemma lower_cap_height:
  fixes y vy ay D :: real
  assumes ay: "ay \<noteq> 0" and d: "0 < vy\<^sup>2 - 2 * ay * (D + y)"
  shows "y + vy * ((- vy + sqrt (vy\<^sup>2 - 2 * ay * (D + y))) / ay)
           + 0.5 * ay * ((- vy + sqrt (vy\<^sup>2 - 2 * ay * (D + y))) / ay)\<^sup>2 = - D"
proof -
  define u where "u = vy\<^sup>2 - 2 * ay * (D + y)"
  define t where "t = (- vy + sqrt u) / ay"
  have "ay * t + vy = sqrt u" using ay by (simp add: t_def)
  then have "(ay * t + vy)\<^sup>2 = u" using d by (simp add: u_def)
  then have "2 * ay * (y + vy * t + 0.5 * ay * t\<^sup>2 - (- D)) = 0"
    using cap_complete_square [of ay y vy t "- D"] by (simp add: u_def algebra_simps)
  then show ?thesis using ay by (simp add: t_def u_def)
qed

lemma capCrossing_cases:
  assumes "capCrossing y vy ay D (Finite m) = Some t" and "ay \<noteq> 0"
  shows "\<exists>u. t = Finite u \<and>
        ((0 < vy\<^sup>2 + 2 * ay * (D - y) \<and> u = (- vy - sqrt (vy\<^sup>2 + 2 * ay * (D - y))) / ay
            \<and> m < u) \<or>
         (0 < vy\<^sup>2 - 2 * ay * (D + y) \<and> u = (- vy + sqrt (vy\<^sup>2 - 2 * ay * (D + y))) / ay
            \<and> (m < u \<or>
                (0 < vy\<^sup>2 + 2 * ay * (D - y)
                 \<and> m < (- vy - sqrt (vy\<^sup>2 + 2 * ay * (D - y))) / ay
                 \<and> u < (- vy - sqrt (vy\<^sup>2 + 2 * ay * (D - y))) / ay))))"
  using assms
  by (auto simp: capCrossing_def Let_def split: if_splits option.splits)

lemma capCrossing_zero_ay:
  "capCrossing y vy 0 D (Finite m) = (if vy < 0 then Some PosInf else None)"
  by (auto simp: capCrossing_def Let_def)

lemma capCrossing_NaN: "capCrossing y vy ay D NaN = None"
  by (simp add: capCrossing_def Let_def)

lemma capCrossing_after_tmin:
  assumes c: "capCrossing y vy ay D (Finite m) = Some t" and ay: "0 < ay"
  shows "Finite m < t"
proof -
  have "\<not> (0 < vy\<^sup>2 - 2 * ay * (D + y) \<and> 0 < vy\<^sup>2 + 2 * ay * (D - y)
          \<and> (- vy + sqrt (vy\<^sup>2 - 2 * ay * (D + y))) / ay
              < (- vy - sqrt (vy\<^sup>2 + 2 * ay * (D - y))) / ay)"
  proof
    assume h: "0 < vy\<^sup>2 - 2 * ay * (D + y) \<and> 0 < vy\<^sup>2 + 2 * ay * (D - y)
          \<and> (- vy + sqrt (vy\<^sup>2 - 2 * ay * (D + y))) / ay
              < (- vy - sqrt (vy\<^sup>2 + 2 * ay * (D - y))) / ay"
    then have "- vy + sqrt (vy\<^sup>2 - 2 * ay * (D + y)) < - vy - sqrt (vy\<^sup>2 + 2 * ay * (D - y))"
      using ay by (simp add: divide_less_cancel)
    moreover have "0 \<le> sqrt (vy\<^sup>2 - 2 * ay * (D + y))" using h by simp
    moreover have "0 \<le> sqrt (vy\<^sup>2 + 2 * ay * (D - y))" using h by simp
    ultimately show False by linarith
  qed
  moreover have "ay \<noteq> 0" using ay by simp
  ultimately show ?thesis using capCrossing_cases [OF c] by auto
qed

lemma capCrossing_on_cap:
  assumes c: "capCrossing y vy ay D (Finite m) = Some (Finite t)"
  shows "y + vy * t + 0.5 * ay * t\<^sup>2 = D \<or> y + vy * t + 0.5 * ay * t\<^sup>2 = - D"
proof -
  have ay: "ay \<noteq> 0"
  proof
    assume "ay = 0"
    with c show False by (simp add: capCrossing_zero_ay split: if_splits)
  qed
  from capCrossing_cases [OF c ay]
  consider
    (upper) "0 < vy\<^sup>2 + 2 * ay * (D - y)" "t = (- vy - sqrt (vy\<^sup>2 + 2 * ay * (D - y))) / ay"
  | (lower) "0 < vy\<^sup>2 - 2 * ay * (D + y)" "t = (- vy + sqrt (vy\<^sup>2 - 2 * ay * (D + y))) / ay"
    by auto
  then show ?thesis
  proof cases
    case upper
    then show ?thesis using upper_cap_height [OF ay, of vy D y] by simp
  next
    case lower
    then show ?thesis using lower_cap_height [OF ay, of vy D y] by simp
  qed
qed

lemma capCrossing_values:
  assumes c: "capCrossing y vy ay D (Finite m) = Some t"
  shows "(\<exists>u. t = Finite u) \<or> t = PosInf"
proof (cases "ay = 0")
  case True
  with c show ?thesis by (simp add: capCrossing_zero_ay split: if_splits)
next
  case False
  from capCrossing_cases [OF c False] show ?thesis by blast
qed

section \<open>The times the cylinder solver returns\<close>

lemma evaluateCylindricalCollision_cases:
  assumes e: "evaluateCylindricalCollision x y z vx vy vz ay R H = Some t"
  shows "(t = Finite 0 \<and> - (H / 2) \<le> y \<and> y \<le> H / 2 \<and> x\<^sup>2 + z\<^sup>2 \<le> R\<^sup>2)
       \<or> (0 \<le> R\<^sup>2 * (vx\<^sup>2 + vz\<^sup>2) - (vx * z - vz * x)\<^sup>2
            \<and> t = radiusEntry x z vx vz R \<and> Finite 0 < t
            \<and> Finite (- (H / 2)) \<le> Finite y + Finite vy * t + Finite (0.5 * ay) * t\<^sup>2
            \<and> Finite y + Finite vy * t + Finite (0.5 * ay) * t\<^sup>2 \<le> Finite (H / 2))
       \<or> (\<not> (- (H / 2) \<le> y \<and> y \<le> H / 2 \<and> x\<^sup>2 + z\<^sup>2 \<le> R\<^sup>2)
            \<and> capCrossing y vy ay (H / 2) (math_max (radiusEntry x z vx vz R) (Finite 0)) = Some t
            \<and> \<not> (Finite x + Finite vx * t)\<^sup>2 + (Finite z + Finite vz * t)\<^sup>2 > Finite (R\<^sup>2))"
  using e
  by (auto simp: evaluateCylindricalCollision_def Let_def split: if_splits option.splits)

lemma cap_path_tmin:
  assumes "capCrossing y vy ay D (math_max (radiusEntry x z vx vz R) (Finite 0)) = Some t"
  shows "\<exists>r. radiusEntry x z vx vz R = Finite r"
  using assms radiusEntry_values [of x z vx vz R] by (auto simp: capCrossing_NaN)

lemma evaluateCylindricalCollision_values:
  assumes e: "evaluateCylindricalCollision x y z vx vy vz ay R H = Some t"
  shows "(\<exists>u. t = Finite u) \<or> t = PosInf"
proof -
  from evaluateCylindricalCollision_cases [OF e]
  consider (inside) "t = Finite 0" | (radius) "Finite 0 < t"
    | (cap) "capCrossing y vy ay (H / 2) (math_max (radiusEntry x z vx vz R) (Finite 0)) = Some t"
    by blast
  then show ?thesis
  proof cases
    case inside
    then show ?thesis by simp
  next
    case radius
    then show ?thesis by (rule less_Finite_cases) simp_all
  next
    case cap
    from cap_path_tmin [OF cap] obtain r where "radiusEntry x z vx vz R = Finite r" ..
    with cap show ?thesis using capCrossing_values [of y vy ay "H / 2" "max r 0" t] by simp
  qed
qed

lemma sqrt_sq_le_abs:
  fixes r R :: real
  assumes "r \<le> R\<^sup>2"
  shows "sqrt r \<le> \<bar>R\<bar>"
proof -
  have "sqrt r \<le> sqrt (R\<^sup>2)" using assms by (simp only: real_sqrt_le_iff)
  then show ?thesis by simp
qed

lemma finite_time_on_cylinder:
  assumes e: "evaluateCylindricalCollision x y z vx vy vz ay R H = Some (Finite t)" and t: "0 < t"
  shows "on_lateral_surface R H (calculateRadius x z vx vz t) (calculateHeight y vy ay t)
      \<or> on_cap R H (calculateRadius x z vx vz t) (calculateHeight y vy ay t)"
proof -
  from evaluateCylindricalCollision_cases [OF e] t
  consider
    (radius) "0 \<le> R\<^sup>2 * (vx\<^sup>2 + vz\<^sup>2) - (vx * z - vz * x)\<^sup>2"
      "radiusEntry x z vx vz R = Finite t"
      "- (H / 2) \<le> y + vy * t + 0.5 * ay * t\<^sup>2" "y + vy * t + 0.5 * ay * t\<^sup>2 \<le> H / 2"
  | (cap) "capCrossing y vy ay (H / 2) (math_max (radiusEntry x z vx vz R) (Finite 0))
             = Some (Finite t)"
      "(x + vx * t)\<^sup>2 + (z + vz * t)\<^sup>2 \<le> R\<^sup>2"
    by (auto simp: power2_eq_square)
  then show ?thesis
  proof cases
    case radius
    have "(x + vx * t)\<^sup>2 + (z + vz * t)\<^sup>2 = R\<^sup>2"
      using radius(1,2) by (rule radiusEntry_on_radius)
    then have "calculateRadius x z vx vz t = \<bar>R\<bar>"
      by (simp add: calculateRadius_def Let_def)
    then have "on_lateral_surface R H (calculateRadius x z vx vz t) (calculateHeight y vy ay t)"
      using radius(3,4) by (simp add: on_lateral_surface_def calculateHeight_def Let_def)
    then show ?thesis ..
  next
    case cap
    from cap_path_tmin [OF cap(1)] obtain r where r: "radiusEntry x z vx vz R = Finite r" ..
    have "calculateRadius x z vx vz t \<le> \<bar>R\<bar>"
      unfolding calculateRadius_def Let_def using cap(2) by (rule sqrt_sq_le_abs)
    moreover have "y + vy * t + 0.5 * ay * t\<^sup>2 = H / 2 \<or> y + vy * t + 0.5 * ay * t\<^sup>2 = - (H / 2)"
      using cap(1) unfolding r math_max_Finite by (rule capCrossing_on_cap)
    ultimately have "on_cap R H (calculateRadius x z vx vz t) (calculateHeight y vy ay t)"
      by (simp add: on_cap_def calculateHeight_def Let_def)
    then show ?thesis ..
  qed
qed

text \<open>
  A projectile with no horizontal velocity that starts outside the cylinder: \<open>t0\<close> is
  \<open>0 / 0\<close>, so is \<open>min\<close>, no cap crossing is greater than it and the solver returns
  nothing.
\<close>

lemma evaluateCylindricalCollision_zero_speed:
  assumes "\<not> (- (H / 2) \<le> y \<and> y \<le> H / 2 \<and> x\<^sup>2 + z\<^sup>2 \<le> R\<^sup>2)"
  shows "evaluateCylindricalCollision x y z 0 vy 0 ay R H = None"
proof -
  have "radiusEntry x z 0 0 R = NaN" by (rule radiusEntry_zero_speed) simp
  then show ?thesis
    using assms by (simp add: evaluateCylindricalCollision_def Let_def capCrossing_NaN)
qed

section \<open>Returned times lie on the boundary of the target\<close>

text \<open>
  The sphere solver with a zero velocity: both quotients of the source are \<open>0 / 0\<close>
  and it returns nothing, as it does here.
\<close>

lemma evaluateIntercept_zero_velocity: "evaluateIntercept x y z 0 0 0 R = None"
  by (simp add: evaluateIntercept_def Let_def)

lemma evaluateIntercept_root:
  assumes e: "evaluateIntercept x y z vx vy vz R = Some t" and t: "t \<noteq> 0"
  shows "(x + vx * t)\<^sup>2 + (y + vy * t)\<^sup>2 + (z + vz * t)\<^sup>2 = R\<^sup>2"
proof -
  define a where "a = vx\<^sup>2 + vy\<^sup>2 + vz\<^sup>2"
  define b where "b = 2 * (vx * x + vy * y + vz * z)"
  define c where "c = x\<^sup>2 + y\<^sup>2 + z\<^sup>2 - R\<^sup>2"
  define d where "d = b\<^sup>2 - 4 * a * c"
  have ev: "evaluateIntercept x y z vx vy vz R =
      (if d < 0 then None
       else if (- b - sqrt d) / (2 * a) > 0 then Some ((- b - sqrt d) / (2 * a))
       else if (- b + sqrt d) / (2 * a) > 0 then Some ((- b + sqrt d) / (2 * a))
       else None)"
    by (simp add: evaluateIntercept_def Let_def a_def b_def c_def d_def)
  from e have d: "0 \<le> d" and
    r: "t = (- b - sqrt d) / (2 * a) \<or> t = (- b + sqrt d) / (2 * a)"
    unfolding ev by (auto split: if_splits)
  have a: "a \<noteq> 0"
  proof
    assume "a = 0"
    with r have "t = 0" by simp
    with t show False by simp
  qed
  have "a * t\<^sup>2 + b * t + c = 0"
    using quadratic_roots [OF a, of b c t] d r unfolding d_def by simp
  then show ?thesis
    unfolding sphere_equation_quadratic a_def b_def c_def .
qed

text \<open>
  What holds of the times returned. A strictly positive time returned by the sphere
  solver puts
  the projectile at distance \<open>R\<close> (\<open>\<bar>R\<bar>\<close> in general: the code uses \<open>R\<close> only
  squared), and a strictly positive finite time returned by the cylinder solver puts it
  on the lateral surface or on a cap, the height taken with its \<open>0.5 * ay * t\<^sup>2\<close>
  term.
\<close>

lemma finite_result_on_boundary:
  "(evaluateIntercept x y z vx vy vz R = Some t \<longrightarrow> 0 < t \<longrightarrow>
      Magnitude \<lparr>X = x + vx * t, Y = y + vy * t, Z = z + vz * t\<rparr> = \<bar>R\<bar>)
   \<and> (evaluateCylindricalCollision x y z vx vy vz ay R H = Some (Finite t) \<longrightarrow> 0 < t \<longrightarrow>
      on_lateral_surface R H (calculateRadius x z vx vz t) (calculateHeight y vy ay t)
      \<or> on_cap R H (calculateRadius x z vx vz t) (calculateHeight y vy ay t))"
proof (intro conjI impI)
  assume "evaluateIntercept x y z vx vy vz R = Some t" and "0 < t"
  then have "(x + vx * t)\<^sup>2 + (y + vy * t)\<^sup>2 + (z + vz * t)\<^sup>2 = R\<^sup>2"
    by (intro evaluateIntercept_root) simp_all
  then show "Magnitude \<lparr>X = x + vx * t, Y = y + vy * t, Z = z + vz * t\<rparr> = \<bar>R\<bar>"
    by (simp add: Magnitude_def)
next
  assume "evaluateCylindricalCollision x y z vx vy vz ay R H = Some (Finite t)" and "0 < t"
  then show "on_lateral_surface R H (calculateRadius x z vx vz t) (calculateHeight y vy ay t)
      \<or> on_cap R H (calculateRadius x z vx vz t) (calculateHeight y vy ay t)"
    by (rule finite_time_on_cylinder)
qed

lemma evaluateIntercept_scenario_A: "evaluateIntercept 0 0 5 0 0 (- 10) 2 = Some (3 / 10)"
  by (simp add: evaluateIntercept_def Let_def sqrt_1600)

lemma evaluateCylindricalCollision_radius_example:
  "evaluateCylindricalCollision 4 0 0 (- 1) 0 0 2 1 40 = Some (Finite 3)"
  by (simp add: evaluateCylindricalCollision_def radiusEntry_def Let_def)

lemma finite_result_on_boundary_example:
  "Magnitude \<lparr>X = 0 + 0 * (3 / 10), Y = 0 + 0 * (3 / 10), Z = 5 + (- 10) * (3 / 10)\<rparr> = \<bar>2\<bar>
   \<and> (on_lateral_surface 1 40 (calculateRadius 4 0 (- 1) 0 3) (calculateHeight 0 0 2 3)
      \<or> on_cap 1 40 (calculateRadius 4 0 (- 1) 0 3) (calculateHeight 0 0 2 3))"
  using finite_result_on_boundary [where x = 0 and y = 0 and z = 5 and vx = 0 and vy = 0
      and vz = "- 10" and R = 2 and t = "3 / 10"]
    finite_result_on_boundary [where x = 4 and y = 0 and z = 0 and vx = "- 1" and vy = 0
      and vz = 0 and ay = 2 and R = 1 and H = 40 and t = 3]
    evaluateIntercept_scenario_A evaluateCylindricalCollision_radius_example
  by simp

section \<open>The cylinder solver without vertical acceleration\<close>

lemma sqrt_44100: "sqrt 44100 = 210"
  by (rule real_sqrt_unique) simp_all

text \<open>
  A projectile that starts at \<open>(30, 20, 0)\<close> with velocity \<open>(-10, -1, 0)\<close> and no
  vertical acceleration never meets the cylinder of radius \<open>21\<close> and height \<open>21\<close>: it is
  within the radius only up to \<open>t = 5.1\<close> and below the upper cap only from \<open>t = 9.5\<close>.
\<close>

lemma zero_gravity_trajectory_misses:
  fixes t :: real
  assumes r: "(30 + (- 10) * t)\<^sup>2 + (0 + 0 * t)\<^sup>2 \<le> 21\<^sup>2"
    and h: "20 + (- 1) * t + 0.5 * 0 * t\<^sup>2 \<le> 21 / 2"
  shows False
proof -
  from h have "65 \<le> 10 * t - 30" by simp
  then have "65\<^sup>2 \<le> (10 * t - 30)\<^sup>2" by (intro power_mono) simp_all
  moreover have "(10 * t - 30)\<^sup>2 = (30 + (- 10) * t)\<^sup>2"
    by (simp add: power2_eq_square algebra_simps)
  ultimately show False using r by simp
qed

text \<open>
  Claim C4, at that input of the cylinder solver. The containment check fails and the
  radius root \<open>t0 = 0.9\<close> is not accepted (the height there is \<open>19.1\<close>, above the
  upper cap at \<open>10.5\<close>), so the cap-crossing path runs and divides by \<open>ay = 0\<close>. The
  upper cap's \<open>t\<close> is \<open>0 / 0\<close>, NaN, which is not greater than \<open>min\<close>; the lower cap's
  \<open>t\<close> is \<open>2 / 0\<close>, plus infinity, which is greater than \<open>min\<close> and becomes \<open>t1\<close>. In
  the radius test \<open>vz * t1\<close> is zero times infinity, so \<open>radius_sq\<close> is NaN,
  \<open>radius_sq > R_sq\<close> does not hold, and the function returns plus infinity: a strictly
  positive time at which the projectile is at no point of the boundary.
\<close>

theorem cylinder_returns_infinity:
  "\<not> (- (21 / 2) \<le> (20::real) \<and> (20::real) \<le> 21 / 2 \<and> (30::real)\<^sup>2 + 0\<^sup>2 \<le> 21\<^sup>2)
   \<and> radiusEntry 30 0 (- 10) 0 21 = Finite (9 / 10)
   \<and> \<not> Finite 20 + Finite (- 1) * Finite (9 / 10) + Finite (0.5 * 0) * (Finite (9 / 10))\<^sup>2
         \<le> Finite (21 / 2)
   \<and> Finite (- (- 1) - sqrt ((- 1)\<^sup>2 + 2 * 0 * (21 / 2 - 20))) / Finite 0 = NaN
   \<and> Finite (- (- 1) + sqrt ((- 1)\<^sup>2 - 2 * 0 * (21 / 2 + 20))) / Finite 0 = PosInf
   \<and> capCrossing 20 (- 1) 0 (21 / 2) (math_max (radiusEntry 30 0 (- 10) 0 21) (Finite 0))
       = Some PosInf
   \<and> (Finite 30 + Finite (- 10) * PosInf)\<^sup>2 + (Finite 0 + Finite 0 * PosInf)\<^sup>2 = NaN
   \<and> evaluateCylindricalCollision 30 20 0 (- 10) (- 1) 0 0 21 21 = Some PosInf
   \<and> Finite 0 < PosInf"
proof -
  have r: "radiusEntry 30 0 (- 10) 0 21 = Finite (9 / 10)"
    by (simp add: radiusEntry_def Let_def sqrt_44100)
  have c: "capCrossing 20 (- 1) 0 (21 / 2) (Finite (9 / 10)) = Some PosInf"
    by (simp add: capCrossing_zero_ay)
  have e: "evaluateCylindricalCollision 30 20 0 (- 10) (- 1) 0 0 21 21 = Some PosInf"
    by (simp add: evaluateCylindricalCollision_def Let_def r c)
  show ?thesis using r c e by simp
qed

section \<open>The cap-crossing path and its lower bound\<close>

lemma sqrt_49: "sqrt 49 = 7"
  by (rule real_sqrt_unique) simp_all

text \<open>
  Claim C2, at a concrete input. The projectile starts inside the vertical band but
  outside the radius, moves away horizontally and has a negative vertical acceleration.
  The containment check fails, the radius root \<open>t0 = -3\<close> is not accepted, so the
  cap-crossing path is taken with \<open>min = max(t0, 0) = 0\<close>. The upper cap gives
  \<open>t1 = 3\<close>; the lower cap's \<open>t = -1\<close> then replaces it through the disjunct
  \<open>t1 !== undefined && t < t1\<close>, which does not compare \<open>t\<close> with \<open>min\<close>. The radius
  test passes at \<open>t = -1\<close> and the function returns \<open>-1\<close>, a time smaller than \<open>min\<close>.
\<close>

theorem cap_crossing_before_tmin:
  "\<not> (- (12 / 2) \<le> (0::real) \<and> (0::real) \<le> 12 / 2 \<and> (2::real)\<^sup>2 + 0\<^sup>2 \<le> 1\<^sup>2)
   \<and> radiusEntry 2 0 1 0 1 = Finite (- 3)
   \<and> capCrossing 0 5 (- 2) (12 / 2) (math_max (radiusEntry 2 0 1 0 1) (Finite 0))
       = Some (Finite (- 1))
   \<and> evaluateCylindricalCollision 2 0 0 1 5 0 (- 2) 1 12 = Some (Finite (- 1))
   \<and> Finite (- 1) < math_max (radiusEntry 2 0 1 0 1) (Finite 0)"
proof -
  have r: "radiusEntry 2 0 1 0 1 = Finite (- 3)"
    by (simp add: radiusEntry_def Let_def)
  have c: "capCrossing 0 5 (- 2) 6 (Finite 0) = Some (Finite (- 1))"
    by (simp add: capCrossing_def Let_def sqrt_49)
  have e: "evaluateCylindricalCollision 2 0 0 1 5 0 (- 2) 1 12 = Some (Finite (- 1))"
    by (simp add: evaluateCylindricalCollision_def Let_def r c)
  show ?thesis using r c e by simp
qed

text \<open>
  With a positive vertical acceleration the lower cap's root is never smaller than the
  upper cap's, the disjunct above never applies, and every time returned from the
  cap-crossing path is finite, greater than \<open>max(t0, 0)\<close> and within the radius.
\<close>

lemma cap_path_after_tmin:
  assumes ay: "0 < ay"
    and outside: "\<not> (- (H / 2) \<le> y \<and> y \<le> H / 2 \<and> x\<^sup>2 + z\<^sup>2 \<le> R\<^sup>2)"
    and rejected: "\<not> (Finite 0 < radiusEntry x z vx vz R
          \<and> Finite (- (H / 2)) \<le> Finite y + Finite vy * radiusEntry x z vx vz R
                + Finite (0.5 * ay) * (radiusEntry x z vx vz R)\<^sup>2
          \<and> Finite y + Finite vy * radiusEntry x z vx vz R
                + Finite (0.5 * ay) * (radiusEntry x z vx vz R)\<^sup>2 \<le> Finite (H / 2))"
    and e: "evaluateCylindricalCollision x y z vx vy vz ay R H = Some t"
  shows "math_max (radiusEntry x z vx vz R) (Finite 0) < t
       \<and> (\<exists>u. t = Finite u \<and> (x + vx * u)\<^sup>2 + (z + vz * u)\<^sup>2 \<le> R\<^sup>2)"
proof -
  from evaluateCylindricalCollision_cases [OF e] outside rejected
  have c: "capCrossing y vy ay (H / 2) (math_max (radiusEntry x z vx vz R) (Finite 0)) = Some t"
    and r: "\<not> (Finite x + Finite vx * t)\<^sup>2 + (Finite z + Finite vz * t)\<^sup>2 > Finite (R\<^sup>2)"
    by auto
  from cap_path_tmin [OF c] obtain r0 where r0: "radiusEntry x z vx vz R = Finite r0" ..
  have lt: "Finite (max r0 0) < t"
    using c ay unfolding r0 math_max_Finite by (rule capCrossing_after_tmin)
  have "ay \<noteq> 0" using ay by simp
  with c obtain u where u: "t = Finite u"
    unfolding r0 math_max_Finite using capCrossing_cases by blast
  from r have "(x + vx * u)\<^sup>2 + (z + vz * u)\<^sup>2 \<le> R\<^sup>2"
    by (simp add: u power2_eq_square not_less)
  with lt u show ?thesis by (simp add: r0)
qed

lemma cap_path_after_tmin_example:
  "(0::real) < 2
   \<and> \<not> (- (2 / 2) \<le> (4::real) \<and> (4::real) \<le> 2 / 2 \<and> (0::real)\<^sup>2 + 0\<^sup>2 \<le> 1\<^sup>2)
   \<and> radiusEntry 0 0 1 0 1 = Finite (- 1)
   \<and> evaluateCylindricalCollision 0 4 0 1 (- 4) 0 2 1 2 = Some (Finite 1)
   \<and> math_max (radiusEntry 0 0 1 0 1) (Finite 0) < Finite 1
   \<and> ((0::real) + 1 * 1)\<^sup>2 + (0 + 0 * 1)\<^sup>2 \<le> 1\<^sup>2"
proof -
  have r: "radiusEntry 0 0 1 0 1 = Finite (- 1)"
    by (simp add: radiusEntry_def Let_def)
  have c: "capCrossing 4 (- 4) 2 1 (Finite 0) = Some (Finite 1)"
    by (simp add: capCrossing_def Let_def)
  have e: "evaluateCylindricalCollision 0 4 0 1 (- 4) 0 2 1 2 = Some (Finite 1)"
    by (simp add: evaluateCylindricalCollision_def Let_def r c)
  show ?thesis
    using cap_path_after_tmin [where ay = 2 and H = 2 and y = 4 and x = 0 and z = 0 and R = 1
        and vx = 1 and vz = 0 and vy = "- 4" and t = "Finite 1"] r e
    by simp
qed

section \<open>Bin: disposal in insertion order\<close>

lemma Bin_inv_new: "Bin_inv new_Bin"
  by (simp add: Bin_inv_def new_Bin_def first_pending_def)

lemma Bin_items_new: "Bin_items new_Bin = []"
  by (simp add: Bin_items_def new_Bin_def first_pending_def)

lemma Bin_add_inv:
  assumes "Bin_inv this"
  shows "Bin_inv (Bin_add this it)"
  using assms
  by (auto simp: Bin_inv_def Bin_add_def Let_def first_pending_def nth_append nth_list_update
      split: option.splits if_splits)

lemma map_item_set_nxt: "map item (ns[t := (ns ! t)\<lparr>nxt := v\<rparr>]) = map item ns"
proof (cases "t < length ns")
  case True
  then show ?thesis by (auto simp: list_eq_iff_nth_eq nth_list_update)
next
  case False
  then have "ns[t := (ns ! t)\<lparr>nxt := v\<rparr>] = ns"
    by (intro list_update_beyond) simp
  then show ?thesis by simp
qed

lemma Bin_add_items:
  assumes "Bin_inv this"
  shows "Bin_items (Bin_add this it) = Bin_items this @ [it]"
  using assms
  by (auto simp: Bin_inv_def Bin_add_def Let_def first_pending_def Bin_items_def
      map_item_set_nxt split: option.splits if_splits)


lemma Bin_batch_inv: "Bin_inv this \<Longrightarrow> Bin_inv (Bin_batch this args)"
  by (induction args arbitrary: this) (simp_all add: Bin_add_inv)

lemma Bin_batch_items:
  "Bin_inv this \<Longrightarrow> Bin_items (Bin_batch this args) = Bin_items this @ args"
  by (induction args arbitrary: this) (simp_all add: Bin_add_inv Bin_add_items)

lemma Bin_run_done: "Bin_run code ([], this, calls) = Some (False, this, calls)"
  by (subst Bin_run.simps) simp

lemma Bin_run_next: "Bin_step code s = Inl s' \<Longrightarrow> Bin_run code s = Bin_run code s'"
  by (subst Bin_run.simps) simp

lemma Bin_run_result: "Bin_step code s = Inr result \<Longrightarrow> Bin_run code s = result"
  by (subst Bin_run.simps) simp

lemma Bin_run_loop_end:
  "head this = None \<Longrightarrow> Bin_run code (Loop # stack, this, calls) = Bin_run code (stack, this, calls)"
  by (rule Bin_run_next) simp

lemma Bin_run_loop_item:
  "head this = Some h \<Longrightarrow> h < length (nodes this) \<Longrightarrow>
   Bin_run code (Loop # stack, this, calls) =
     Bin_run code
       (Item (fst (if disposal_of (item (nodes this ! h)) = [] then ([], False)
                   else code (calls @ disposal_of (item (nodes this ! h)))))
             (snd (if disposal_of (item (nodes this ! h)) = [] then ([], False)
                   else code (calls @ disposal_of (item (nodes this ! h))))) # stack,
        this, calls @ disposal_of (item (nodes this ! h)))"
  by (rule Bin_run_next) (simp add: Let_def split: prod.splits)

lemma Bin_run_item_throws:
  "Bin_run code (Item [] True # stack, this, calls) = Some (True, this, calls)"
  by (rule Bin_run_result) simp

lemma Bin_run_item_returns:
  "head this = Some h \<Longrightarrow> h < length (nodes this) \<Longrightarrow>
   Bin_run code (Item [] False # stack, this, calls) =
     Bin_run code (Loop # stack, this\<lparr>head := nxt (nodes this ! h)\<rparr>, calls)"
  by (rule Bin_run_next) simp

lemma Bin_run_item_no_head:
  "head this = None \<Longrightarrow> Bin_run code (Item [] False # stack, this, calls) = Some (True, this, calls)"
  by (rule Bin_run_result) simp

lemma Bin_run_item_add:
  "Bin_run code (Item (Add it # does) throws # stack, this, calls) =
     Bin_run code (Item does throws # stack, Bin_add this it, calls)"
  by (rule Bin_run_next) simp

lemma Bin_run_item_batch:
  "Bin_run code (Item (Batch args # does) throws # stack, this, calls) =
     Bin_run code (Item does throws # stack, Bin_batch this args, calls)"
  by (rule Bin_run_next) simp

lemma Bin_run_item_destroy:
  "Bin_run code (Item (Destroy # does) throws # stack, this, calls) =
     Bin_run code (Loop # Item does throws # stack, this, calls)"
  by (rule Bin_run_next) simp

lemmas Bin_run_simps =
  Bin_run_done Bin_run_loop_end Bin_run_loop_item Bin_run_item_throws Bin_run_item_returns
  Bin_run_item_no_head Bin_run_item_add Bin_run_item_batch Bin_run_item_destroy

lemma Bin_destroy_total:
  assumes nr: "\<forall>calls. fst (code calls) = []" and inv: "Bin_inv this"
  shows "\<exists>threw this' calls'.
           Bin_destroy code this calls = Some (threw, this', calls')
           \<and> Bin_inv this'
           \<and> (threw \<longrightarrow> \<not> Bin_isEmpty this')
           \<and> (\<not> threw \<longrightarrow> this' = this\<lparr>head := None\<rparr>
                 \<and> calls' = calls @ concat (map disposal_of (Bin_items this)))"
  using inv unfolding Bin_destroy_def
proof (induction "length (nodes this) - first_pending this" arbitrary: this calls)
  case 0
  then have "head this = None"
    by (auto simp: Bin_inv_def first_pending_def split: option.splits)
  then show ?case
    using 0 by (auto simp: Bin_run_simps Bin_items_def first_pending_def)
next
  case (Suc n)
  then obtain h where h: "head this = Some h" and hl: "h < length (nodes this)"
    by (auto simp: Bin_inv_def first_pending_def split: option.splits)
  let ?next = "this\<lparr>head := nxt (nodes this ! h)\<rparr>"
  let ?call = "disposal_of (item (nodes this ! h))"
  let ?throws = "?call \<noteq> [] \<and> snd (code (calls @ ?call))"
  have nx: "nxt (nodes this ! h) = (if Suc h < length (nodes this) then Some (Suc h) else None)"
    using Suc.prems h hl by (simp add: Bin_inv_def first_pending_def)
  have fp: "first_pending ?next = Suc h"
    using nx hl by (auto simp: first_pending_def)
  have inv: "Bin_inv ?next"
    using Suc.prems h hl nx by (auto simp: Bin_inv_def first_pending_def)
  have n: "n = length (nodes ?next) - first_pending ?next"
    using Suc.hyps(2) h fp by (simp add: first_pending_def)
  have items: "Bin_items this = item (nodes this ! h) # Bin_items ?next"
    using h hl fp by (simp add: Bin_items_def first_pending_def Cons_nth_drop_Suc [symmetric])
  have step: "Bin_run code ([Loop], this, calls)
      = Bin_run code ([Item [] ?throws], this, calls @ ?call)"
    using nr by (simp add: Bin_run_loop_item [OF h hl])
  show ?case
  proof (cases ?throws)
    case True
    then have "?throws = True" by simp
    then have "Bin_run code ([Loop], this, calls) = Some (True, this, calls @ ?call)"
      unfolding step by (simp only: Bin_run_item_throws)
    then show ?thesis using Suc.prems h by (auto simp: Bin_isEmpty_def)
  next
    case False
    then have "?throws = False" by simp
    then have "Bin_run code ([Loop], this, calls) = Bin_run code ([Loop], ?next, calls @ ?call)"
      unfolding step by (simp only: Bin_run_item_returns [OF h hl])
    moreover from Suc.hyps(1) [OF n inv, of "calls @ ?call"]
    obtain threw this' calls' where
      "Bin_run code ([Loop], ?next, calls @ ?call) = Some (threw, this', calls')"
      and "Bin_inv this'" and "threw \<longrightarrow> \<not> Bin_isEmpty this'"
      and "\<not> threw \<longrightarrow> this' = ?next\<lparr>head := None\<rparr>
             \<and> calls' = (calls @ ?call) @ concat (map disposal_of (Bin_items ?next))"
      by blast
    ultimately show ?thesis by (simp add: items)
  qed
qed

lemma quiet_makes_no_call: "\<forall>calls. fst (quiet calls) = []"
  by (simp add: quiet_def)

lemma Bin_destroy_quiet_returns:
  assumes "Bin_inv this" and "Bin_destroy quiet this calls = Some (threw, this', calls')"
  shows "\<not> threw"
  using assms unfolding Bin_destroy_def
proof (induction "length (nodes this) - first_pending this" arbitrary: this calls)
  case 0
  then have "head this = None"
    by (auto simp: Bin_inv_def first_pending_def split: option.splits)
  with 0 show ?case by (simp add: Bin_run_simps)
next
  case (Suc n)
  then obtain h where h: "head this = Some h" and hl: "h < length (nodes this)"
    by (auto simp: Bin_inv_def first_pending_def split: option.splits)
  let ?next = "this\<lparr>head := nxt (nodes this ! h)\<rparr>"
  let ?call = "disposal_of (item (nodes this ! h))"
  have nx: "nxt (nodes this ! h) = (if Suc h < length (nodes this) then Some (Suc h) else None)"
    using Suc.prems h hl by (simp add: Bin_inv_def first_pending_def)
  have fp: "first_pending ?next = Suc h"
    using nx hl by (auto simp: first_pending_def)
  have inv: "Bin_inv ?next"
    using Suc.prems h hl nx by (auto simp: Bin_inv_def first_pending_def)
  have n: "n = length (nodes ?next) - first_pending ?next"
    using Suc.hyps(2) h fp by (simp add: first_pending_def)
  have "Bin_run quiet ([Loop], this, calls) = Bin_run quiet ([Item [] False], this, calls @ ?call)"
    by (simp add: Bin_run_loop_item [OF h hl] quiet_def)
  also have "\<dots> = Bin_run quiet ([Loop], ?next, calls @ ?call)"
    by (simp only: Bin_run_item_returns [OF h hl])
  finally have "Bin_run quiet ([Loop], ?next, calls @ ?call) = Some (threw, this', calls')"
    using Suc.prems(2) by simp
  from Suc.hyps(1) [OF n inv this] show ?case .
qed

lemma Bin_destroy_inv:
  assumes inv: "Bin_inv this"
  shows "Bin_destroy quiet this [] =
           Some (False, this\<lparr>head := None\<rparr>, concat (map disposal_of (Bin_items this)))"
proof -
  from Bin_destroy_total [OF quiet_makes_no_call inv, of "[]"]
  obtain threw this' calls' where
    d: "Bin_destroy quiet this [] = Some (threw, this', calls')"
    and r: "\<not> threw \<longrightarrow> this' = this\<lparr>head := None\<rparr>
                 \<and> calls' = [] @ concat (map disposal_of (Bin_items this))"
    by blast
  from Bin_destroy_quiet_returns [OF inv d] r d show ?thesis by simp
qed

lemma Bin_inv_emptied: "Bin_inv this \<Longrightarrow> Bin_inv (this\<lparr>head := None\<rparr>)"
  by (auto simp: Bin_inv_def first_pending_def)

lemma Bin_items_emptied: "Bin_items (this\<lparr>head := None\<rparr>) = []"
  by (simp add: Bin_items_def first_pending_def)

lemma Bin_destroy_empty:
  "Bin_isEmpty this \<Longrightarrow> Bin_destroy code this calls = Some (False, this, calls)"
  unfolding Bin_destroy_def Bin_isEmpty_def by (simp add: Bin_run_simps)

lemma Bin_destroy_new: "Bin_destroy code new_Bin calls = Some (False, new_Bin, calls)"
  by (intro Bin_destroy_empty) (simp add: Bin_isEmpty_def new_Bin_def)

lemma Bin_calls_inv:
  assumes nr: "\<forall>calls. fst (code calls) = []" and inv: "Bin_inv this"
  shows "\<exists>this' calls' thrown'.
           Bin_calls code cs (this, calls, thrown) = Some (this', calls', thrown')
           \<and> Bin_inv this'
           \<and> set thrown \<subseteq> set thrown'
           \<and> (True \<notin> set thrown' \<longrightarrow>
                Bin_items this' = pending (Bin_items this) cs
                \<and> calls' @ concat (map disposal_of (Bin_items this'))
                    = calls @ concat (map disposal_of (Bin_items this @ added cs)))"
  using inv
proof (induction cs arbitrary: this calls thrown)
  case Nil
  then show ?case by simp
next
  case (Cons c cs)
  show ?case
  proof (cases c)
    case (Add it)
    from Cons.IH [OF Bin_add_inv [OF Cons.prems], of it calls thrown]
    show ?thesis by (simp add: Add Bin_add_items [OF Cons.prems])
  next
    case (Batch args)
    from Cons.IH [OF Bin_batch_inv [OF Cons.prems], of args calls thrown]
    show ?thesis by (simp add: Batch Bin_batch_items [OF Cons.prems])
  next
    case Destroy
    from Bin_destroy_total [OF nr Cons.prems, of calls]
    obtain threw this1 calls1 where
      d: "Bin_destroy code this calls = Some (threw, this1, calls1)"
      and i1: "Bin_inv this1"
      and ok: "\<not> threw \<longrightarrow> this1 = this\<lparr>head := None\<rparr>
                 \<and> calls1 = calls @ concat (map disposal_of (Bin_items this))"
      by blast
    from Cons.IH [OF i1, of calls1 "thrown @ [threw]"]
    obtain this' calls' thrown' where
      r: "Bin_calls code cs (this1, calls1, thrown @ [threw]) = Some (this', calls', thrown')"
      and i': "Bin_inv this'"
      and sub: "set (thrown @ [threw]) \<subseteq> set thrown'"
      and rest: "True \<notin> set thrown' \<longrightarrow>
                Bin_items this' = pending (Bin_items this1) cs
                \<and> calls' @ concat (map disposal_of (Bin_items this'))
                    = calls1 @ concat (map disposal_of (Bin_items this1 @ added cs))"
      by blast
    have run: "Bin_calls code (c # cs) (this, calls, thrown) = Some (this', calls', thrown')"
      by (simp add: Destroy d r)
    have "True \<notin> set thrown' \<longrightarrow>
                Bin_items this' = pending (Bin_items this) (c # cs)
                \<and> calls' @ concat (map disposal_of (Bin_items this'))
                    = calls @ concat (map disposal_of (Bin_items this @ added (c # cs)))"
    proof
      assume t: "True \<notin> set thrown'"
      with sub have "\<not> threw" by auto
      with ok have this1: "this1 = this\<lparr>head := None\<rparr>"
        and calls1: "calls1 = calls @ concat (map disposal_of (Bin_items this))" by simp_all
      from rest t show "Bin_items this' = pending (Bin_items this) (c # cs)
                \<and> calls' @ concat (map disposal_of (Bin_items this'))
                    = calls @ concat (map disposal_of (Bin_items this @ added (c # cs)))"
        by (auto simp: Destroy this1 calls1 Bin_items_emptied)
    qed
    with run i' sub show ?thesis by auto
  qed
qed

text \<open>
  Claim C6, as the code has it. The items make no call on the \<open>Bin\<close>. After any
  sequence of \<open>add\<close>, \<open>batch\<close> and \<open>destroy\<close> calls on a new \<open>Bin\<close>,
  \<open>destroy()\<close> returns or throws. When no \<open>destroy()\<close> has thrown, this one
  included, it has called exactly the items added since the last \<open>destroy()\<close>, in
  insertion order, so that over the whole history every addition has been disposed
  once, in insertion order (a handle added twice, twice); it leaves \<open>isEmpty()\<close> true,
  and a second \<open>destroy()\<close> disposes nothing and changes nothing. Whatever the items
  do, \<open>destroy()\<close> on a new \<open>Bin\<close> disposes nothing and changes nothing.
\<close>

theorem Bin_destroy_fifo_once:
  "((\<forall>calls. fst (code calls) = []) \<longrightarrow>
     (\<exists>this calls thrown threw this' calls'.
        Bin_calls code cs (new_Bin, [], []) = Some (this, calls, thrown)
        \<and> Bin_destroy code this calls = Some (threw, this', calls')
        \<and> (True \<notin> set thrown \<and> \<not> threw \<longrightarrow>
             calls' = calls @ concat (map disposal_of (pending [] cs))
             \<and> calls' = concat (map disposal_of (added cs))
             \<and> Bin_isEmpty this'
             \<and> Bin_destroy code this' calls' = Some (False, this', calls'))))
   \<and> Bin_destroy code new_Bin [] = Some (False, new_Bin, [])"
proof (intro conjI impI)
  assume nr: "\<forall>calls. fst (code calls) = []"
  from Bin_calls_inv [OF nr Bin_inv_new, of cs "[]" "[]"]
  obtain this calls thrown where
    run: "Bin_calls code cs (new_Bin, [], []) = Some (this, calls, thrown)" and
    inv: "Bin_inv this" and
    ok: "True \<notin> set thrown \<longrightarrow>
           Bin_items this = pending [] cs
           \<and> calls @ concat (map disposal_of (Bin_items this)) = concat (map disposal_of (added cs))"
    by (auto simp: Bin_items_new)
  from Bin_destroy_total [OF nr inv, of calls]
  obtain threw this' calls' where
    d: "Bin_destroy code this calls = Some (threw, this', calls')"
    and r: "\<not> threw \<longrightarrow> this' = this\<lparr>head := None\<rparr>
                 \<and> calls' = calls @ concat (map disposal_of (Bin_items this))"
    by blast
  have "True \<notin> set thrown \<and> \<not> threw \<longrightarrow>
          calls' = calls @ concat (map disposal_of (pending [] cs))
          \<and> calls' = concat (map disposal_of (added cs))
          \<and> Bin_isEmpty this'
          \<and> Bin_destroy code this' calls' = Some (False, this', calls')"
  proof
    assume a: "True \<notin> set thrown \<and> \<not> threw"
    with r have t': "this' = this\<lparr>head := None\<rparr>"
      and c': "calls' = calls @ concat (map disposal_of (Bin_items this))" by simp_all
    have e: "Bin_isEmpty this'" by (simp add: t' Bin_isEmpty_def)
    from a ok c' e Bin_destroy_empty [OF e, of code calls']
    show "calls' = calls @ concat (map disposal_of (pending [] cs))
          \<and> calls' = concat (map disposal_of (added cs))
          \<and> Bin_isEmpty this'
          \<and> Bin_destroy code this' calls' = Some (False, this', calls')"
      by auto
  qed
  with run d show "\<exists>this calls thrown threw this' calls'.
        Bin_calls code cs (new_Bin, [], []) = Some (this, calls, thrown)
        \<and> Bin_destroy code this calls = Some (threw, this', calls')
        \<and> (True \<notin> set thrown \<and> \<not> threw \<longrightarrow>
             calls' = calls @ concat (map disposal_of (pending [] cs))
             \<and> calls' = concat (map disposal_of (added cs))
             \<and> Bin_isEmpty this'
             \<and> Bin_destroy code this' calls' = Some (False, this', calls'))"
    by blast
next
  show "Bin_destroy code new_Bin [] = Some (False, new_Bin, [])" by (rule Bin_destroy_new)
qed

lemma Bin_calls_example:
  "Bin_calls quiet
     [Add (Callback (1::nat)), Destroy, Batch [Connection 2, Thread 3], Add (Object 4 False True)]
     (new_Bin, [], [])
   = Some (\<lparr>head = Some 1, tail = Some 3,
            nodes = [\<lparr>item = Callback 1, nxt = Some 1\<rparr>, \<lparr>item = Connection 2, nxt = Some 2\<rparr>,
                     \<lparr>item = Thread 3, nxt = Some 3\<rparr>, \<lparr>item = Object 4 False True, nxt = None\<rparr>]\<rparr>,
           [Called 1], [False])"
  by (simp add: Bin_destroy_def new_Bin_def Bin_add_def Let_def Bin_run_simps quiet_def)

lemma Bin_destroy_example:
  "Bin_destroy quiet
     \<lparr>head = Some 1, tail = Some 3,
      nodes = [\<lparr>item = Callback (1::nat), nxt = Some 1\<rparr>, \<lparr>item = Connection 2, nxt = Some 2\<rparr>,
               \<lparr>item = Thread 3, nxt = Some 3\<rparr>, \<lparr>item = Object 4 False True, nxt = None\<rparr>]\<rparr>
     [Called 1]
   = Some (False,
       \<lparr>head = None, tail = Some 3,
        nodes = [\<lparr>item = Callback 1, nxt = Some 1\<rparr>, \<lparr>item = Connection 2, nxt = Some 2\<rparr>,
                 \<lparr>item = Thread 3, nxt = Some 3\<rparr>, \<lparr>item = Object 4 False True, nxt = None\<rparr>]\<rparr>,
       [Called 1, Disconnected 2, Cancelled 3, Destroyed_upper 4])"
  by (simp add: Bin_destroy_def Bin_run_simps quiet_def)

theorem Bin_destroy_fifo_once_witness:
  "(\<forall>calls. fst ((quiet :: nat behaviour) calls) = [])
   \<and> Bin_calls quiet
       [Add (Callback (1::nat)), Destroy, Batch [Connection 2, Thread 3], Add (Object 4 False True)]
       (new_Bin, [], [])
     = Some (\<lparr>head = Some 1, tail = Some 3,
              nodes = [\<lparr>item = Callback 1, nxt = Some 1\<rparr>, \<lparr>item = Connection 2, nxt = Some 2\<rparr>,
                       \<lparr>item = Thread 3, nxt = Some 3\<rparr>,
                       \<lparr>item = Object 4 False True, nxt = None\<rparr>]\<rparr>,
             [Called 1], [False])
   \<and> True \<notin> set [False]
   \<and> (\<exists>this'.
        Bin_destroy quiet
          \<lparr>head = Some 1, tail = Some 3,
           nodes = [\<lparr>item = Callback (1::nat), nxt = Some 1\<rparr>, \<lparr>item = Connection 2, nxt = Some 2\<rparr>,
                    \<lparr>item = Thread 3, nxt = Some 3\<rparr>, \<lparr>item = Object 4 False True, nxt = None\<rparr>]\<rparr>
          [Called 1]
          = Some (False, this', [Called 1, Disconnected 2, Cancelled 3, Destroyed_upper 4])
        \<and> [Called 1, Disconnected 2, Cancelled 3, Destroyed_upper 4]
            = concat (map disposal_of
                [Callback (1::nat), Connection 2, Thread 3, Object 4 False True])
        \<and> Bin_isEmpty this'
        \<and> Bin_destroy quiet this' [Called 1, Disconnected 2, Cancelled 3, Destroyed_upper 4]
            = Some (False, this', [Called 1, Disconnected 2, Cancelled 3, Destroyed_upper 4]))"
proof -
  let ?cs = "[Add (Callback (1::nat)), Destroy, Batch [Connection 2, Thread 3],
              Add (Object 4 False True)]"
  let ?bin = "\<lparr>head = Some 1, tail = Some 3,
           nodes = [\<lparr>item = Callback (1::nat), nxt = Some 1\<rparr>, \<lparr>item = Connection 2, nxt = Some 2\<rparr>,
                    \<lparr>item = Thread 3, nxt = Some 3\<rparr>, \<lparr>item = Object 4 False True, nxt = None\<rparr>]\<rparr>"
  let ?all = "[Called (1::nat), Disconnected 2, Cancelled 3, Destroyed_upper 4]"
  have q: "\<forall>calls. fst ((quiet :: nat behaviour) calls) = []" by (rule quiet_makes_no_call)
  from Bin_destroy_fifo_once [of quiet ?cs, THEN conjunct1, rule_format, OF q [rule_format]]
  obtain this calls thrown threw this' calls' where
    run: "Bin_calls quiet ?cs (new_Bin, [], []) = Some (this, calls, thrown)"
    and d: "Bin_destroy quiet this calls = Some (threw, this', calls')"
    and ok: "True \<notin> set thrown \<and> \<not> threw \<longrightarrow>
          calls' = calls @ concat (map disposal_of (pending [] ?cs))
          \<and> calls' = concat (map disposal_of (added ?cs))
          \<and> Bin_isEmpty this'
          \<and> Bin_destroy quiet this' calls' = Some (False, this', calls')"
    by blast
  from run have calls: "calls = [Called 1]" and thrown: "thrown = [False]"
    and bin: "this = ?bin"
    unfolding Bin_calls_example by simp_all
  from d have threw: "\<not> threw" and calls': "calls' = ?all"
    unfolding bin calls Bin_destroy_example by simp_all
  have nt: "True \<notin> set thrown" unfolding thrown by simp
  from ok nt threw have e: "Bin_isEmpty this'"
    and again: "Bin_destroy quiet this' calls' = Some (False, this', calls')"
    by blast+
  have d': "Bin_destroy quiet ?bin [Called 1] = Some (False, this', ?all)"
    using d threw unfolding bin calls calls' by simp
  have again': "Bin_destroy quiet this' ?all = Some (False, this', ?all)"
    using again unfolding calls' .
  have "\<exists>this'. Bin_destroy quiet ?bin [Called 1] = Some (False, this', ?all)
        \<and> ?all = concat (map disposal_of [Callback (1::nat), Connection 2, Thread 3,
                            Object 4 False True])
        \<and> Bin_isEmpty this'
        \<and> Bin_destroy quiet this' ?all = Some (False, this', ?all)"
    using d' e again' by (intro exI [of _ this']) simp
  then show ?thesis using Bin_calls_example q by simp
qed

text \<open>
  Claim C6, as stated, fails in three ways. A handle added twice is called twice by one
  \<open>destroy()\<close>. A handle whose call throws is still at \<open>head\<close> when \<open>destroy()\<close>
  is left: \<open>isEmpty()\<close> is false after it, and the next \<open>destroy()\<close> calls the handle
  again (here the handle throws the first time it is called and not the second). And a
  handle whose code calls \<open>destroy()\<close> and then \<open>add\<close> (here the first time it is
  called) is called again by that inner \<open>destroy()\<close>, and the handle it adds is
  skipped by the outer one: no \<open>destroy()\<close> throws, \<open>isEmpty()\<close> is true, the first
  handle has been called twice and the added one never.
\<close>

theorem Bin_destroy_calls_again:
  "Bin_calls quiet [Add (Callback (1::nat)), Add (Callback 1), Destroy] (new_Bin, [], [])
     = Some (\<lparr>head = None, tail = Some 1,
              nodes = [\<lparr>item = Callback 1, nxt = Some 1\<rparr>, \<lparr>item = Callback 1, nxt = None\<rparr>]\<rparr>,
             [Called 1, Called 1], [False])
   \<and> Bin_calls (\<lambda>calls. ([], length calls = 1)) [Add (Callback (1::nat)), Destroy]
       (new_Bin, [], [])
     = Some (\<lparr>head = Some 0, tail = Some 0, nodes = [\<lparr>item = Callback 1, nxt = None\<rparr>]\<rparr>,
             [Called 1], [True])
   \<and> \<not> Bin_isEmpty \<lparr>head = Some 0, tail = Some 0,
                      nodes = [\<lparr>item = Callback (1::nat), nxt = None\<rparr>]\<rparr>
   \<and> Bin_calls (\<lambda>calls. ([], length calls = 1)) [Add (Callback (1::nat)), Destroy, Destroy]
       (new_Bin, [], [])
     = Some (\<lparr>head = None, tail = Some 0, nodes = [\<lparr>item = Callback 1, nxt = None\<rparr>]\<rparr>,
             [Called 1, Called 1], [True, False])
   \<and> Bin_calls (\<lambda>calls. (if length calls = 1 then [Destroy, Add (Callback 2)] else [], False))
       [Add (Callback (1::nat)), Destroy] (new_Bin, [], [])
     = Some (\<lparr>head = None, tail = Some 1,
              nodes = [\<lparr>item = Callback 1, nxt = Some 1\<rparr>, \<lparr>item = Callback 2, nxt = None\<rparr>]\<rparr>,
             [Called 1, Called 1], [False])
   \<and> Bin_isEmpty \<lparr>head = None, tail = Some 1,
                    nodes = [\<lparr>item = Callback (1::nat), nxt = Some 1\<rparr>,
                             \<lparr>item = Callback 2, nxt = None\<rparr>]\<rparr>"
  by (simp add: Bin_destroy_def new_Bin_def Bin_add_def Let_def Bin_run_simps quiet_def
      Bin_isEmpty_def)

section \<open>The decision threshold of the two generations\<close>

lemma parry_gen1_decides:
  assumes c: "canParry ball" and tg: "getTarget ball = AString name'"
    and far: "\<not> Magnitude (sub (Position instance') origin) < RADIUS_gen1"
    and e: "evaluateIntercept
        (X (sub (Position instance') origin)) (Y (sub (Position instance') origin))
        (Z (sub (Position instance') origin))
        (X (sub (AssemblyLinearVelocity instance') motion))
        (Y (sub (AssemblyLinearVelocity instance') motion))
        (Z (sub (AssemblyLinearVelocity instance') motion)) RADIUS_gen1 = Some t"
  shows "parry_gen1 name' origin motion instance' ball
        = (if t \<le> COMPENSATION then ([keypress 0x46, keyrelease 0x46], debounce ball)
           else ([], ball))"
proof -
  have "parry_gen1 name' origin motion instance' ball
      = (if t > COMPENSATION then ([], ball) else useParry ball)"
    unfolding parry_gen1_def Let_def using c tg far by (simp add: e)
  also have "\<dots> = (if t \<le> COMPENSATION then ([keypress 0x46, keyrelease 0x46], debounce ball)
           else ([], ball))"
    by (simp add: not_less useParry_def)
  finally show ?thesis .
qed

lemma at_or_above:
  assumes "(\<exists>u. t = Finite u) \<or> t = PosInf"
  shows "\<not> t < Finite c \<longleftrightarrow> Finite c \<le> t"
  using assms by (auto simp: not_less)

lemma parry_gen2_decides:
  assumes c: "canParry ball" and tg: "getTarget ball = AString name'"
    and far: "\<not> Magnitude (sub (Position instance') origin) < RADIUS_gen2"
    and e: "evaluateCylindricalCollision
        (X (sub (Position instance') origin)) (Y (sub (Position instance') origin))
        (Z (sub (Position instance') origin))
        (X (sub (AssemblyLinearVelocity instance') motion))
        (Y (sub (AssemblyLinearVelocity instance') motion))
        (Z (sub (AssemblyLinearVelocity instance') motion)) gravity RADIUS_gen2 HEIGHT = Some t"
  shows "parry_gen2 gravity name' origin motion instance' ball
        = (if Finite COMPENSATION \<le> t then ([keypress 0x46, keyrelease 0x46], debounce ball)
           else ([], ball))"
proof -
  have "parry_gen2 gravity name' origin motion instance' ball
      = (if t < Finite COMPENSATION then ([], ball) else useParry ball)"
    unfolding parry_gen2_def Let_def using c tg far by (simp add: e)
  also have "\<dots> = (if Finite COMPENSATION \<le> t
           then ([keypress 0x46, keyrelease 0x46], debounce ball) else ([], ball))"
    using at_or_above [OF evaluateCylindricalCollision_values [OF e], of COMPENSATION]
    by (cases "t < Finite COMPENSATION") (simp_all add: useParry_def)
  finally show ?thesis .
qed

text \<open>
  The first generation's loop treats the balls of \<open>BallComponent.active\<close> one after
  the other, each on its own.
\<close>

lemma forEach_gen1_append:
  "forEach_gen1 ps name' origin motion (xs @ ys)
   = (fst (forEach_gen1 ps name' origin motion xs) @ fst (forEach_gen1 ps name' origin motion ys),
      snd (forEach_gen1 ps name' origin motion xs) @ snd (forEach_gen1 ps name' origin motion ys))"
  by (induction xs) (auto simp: Let_def split: prod.splits)

lemma forEach_gen1_Cons:
  "forEach_gen1 ps name' origin motion ((instance', ball) # rest)
   = (fst (parry_gen1 name' origin motion (ps instance') ball)
        @ fst (forEach_gen1 ps name' origin motion rest),
      (instance', snd (parry_gen1 name' origin motion (ps instance') ball))
        # snd (forEach_gen1 ps name' origin motion rest))"
  by (simp add: Let_def split: prod.splits)

lemma Heartbeat_gen1_candidates:
  "getCharacter player = Some c \<Longrightarrow>
   Heartbeat_gen1 ps cs player balls
     = forEach_gen1 ps (getName player) (Position (ps (root (cs c))))
         (mul (AssemblyLinearVelocity (ps (root (cs c)))) Vector2D) balls"
  by (simp add: Heartbeat_gen1_def Let_def)

lemma Heartbeat_gen2_candidate:
  "getCharacter player = Some c \<Longrightarrow>
   Heartbeat_gen2 ps gravity cs player (Some ball)
     = map_prod id Some
         (parry_gen2 gravity (getName player) (Position (ps (root (cs c))))
            (mul (AssemblyLinearVelocity (ps (root (cs c)))) Vector2D)
            (ps (inst ball)) ball)"
  by (simp add: Heartbeat_gen2_def Let_def split: prod.splits)

text \<open>
  Claim C3. The player has a character. In the first generation's \<open>Heartbeat\<close>
  handler, a ball of \<open>BallComponent.active\<close> is a candidate when it is not debounced,
  its target is the local player's name and its relative position is not inside the
  radius; when the solver returns a time for it, the handler issues for this ball,
  between what it issues for the balls before and after it, the key press and key
  release of the parry (and debounces the ball) exactly when the time is at or below
  \<open>COMPENSATION\<close>, and issues nothing and leaves the ball as it is otherwise. In the
  second generation's handler the same holds of the one ball \<open>BallComponent.active\<close>,
  exactly when the time is at or above \<open>COMPENSATION\<close>.
\<close>

theorem parry_threshold:
  "(getCharacter player = Some c \<longrightarrow>
      (let origin = Position (ps (root (cs c)));
           motion = mul (AssemblyLinearVelocity (ps (root (cs c)))) Vector2D;
           position = sub (Position (ps instance')) origin;
           velocity = sub (AssemblyLinearVelocity (ps instance')) motion
       in canParry ball \<longrightarrow> getTarget ball = AString (getName player) \<longrightarrow>
          \<not> Magnitude position < RADIUS_gen1 \<longrightarrow>
          evaluateIntercept (X position) (Y position) (Z position)
            (X velocity) (Y velocity) (Z velocity) RADIUS_gen1 = Some t \<longrightarrow>
          Heartbeat_gen1 ps cs player (earlier @ (instance', ball) # later)
            = (fst (Heartbeat_gen1 ps cs player earlier)
                 @ (if t \<le> COMPENSATION then [keypress 0x46, keyrelease 0x46] else [])
                 @ fst (Heartbeat_gen1 ps cs player later),
               snd (Heartbeat_gen1 ps cs player earlier)
                 @ (instance', if t \<le> COMPENSATION then debounce ball else ball)
                 # snd (Heartbeat_gen1 ps cs player later))))
   \<and> (getCharacter player = Some c \<longrightarrow>
      (let origin = Position (ps (root (cs c)));
           motion = mul (AssemblyLinearVelocity (ps (root (cs c)))) Vector2D;
           position = sub (Position (ps (inst ball'))) origin;
           velocity = sub (AssemblyLinearVelocity (ps (inst ball'))) motion
       in canParry ball' \<longrightarrow> getTarget ball' = AString (getName player) \<longrightarrow>
          \<not> Magnitude position < RADIUS_gen2 \<longrightarrow>
          evaluateCylindricalCollision (X position) (Y position) (Z position)
            (X velocity) (Y velocity) (Z velocity) gravity RADIUS_gen2 HEIGHT = Some t' \<longrightarrow>
          Heartbeat_gen2 ps gravity cs player (Some ball')
            = (if Finite COMPENSATION \<le> t'
               then ([keypress 0x46, keyrelease 0x46], Some (debounce ball'))
               else ([], Some ball'))))"
proof (intro conjI impI)
  assume ch: "getCharacter player = Some c"
  let ?origin = "Position (ps (root (cs c)))"
  let ?motion = "mul (AssemblyLinearVelocity (ps (root (cs c)))) Vector2D"
  show "let origin = ?origin; motion = ?motion;
           position = sub (Position (ps instance')) origin;
           velocity = sub (AssemblyLinearVelocity (ps instance')) motion
       in canParry ball \<longrightarrow> getTarget ball = AString (getName player) \<longrightarrow>
          \<not> Magnitude position < RADIUS_gen1 \<longrightarrow>
          evaluateIntercept (X position) (Y position) (Z position)
            (X velocity) (Y velocity) (Z velocity) RADIUS_gen1 = Some t \<longrightarrow>
          Heartbeat_gen1 ps cs player (earlier @ (instance', ball) # later)
            = (fst (Heartbeat_gen1 ps cs player earlier)
                 @ (if t \<le> COMPENSATION then [keypress 0x46, keyrelease 0x46] else [])
                 @ fst (Heartbeat_gen1 ps cs player later),
               snd (Heartbeat_gen1 ps cs player earlier)
                 @ (instance', if t \<le> COMPENSATION then debounce ball else ball)
                 # snd (Heartbeat_gen1 ps cs player later))"
    unfolding Let_def
  proof (intro impI)
    assume "canParry ball" and "getTarget ball = AString (getName player)"
      and "\<not> Magnitude (sub (Position (ps instance')) ?origin) < RADIUS_gen1"
      and "evaluateIntercept
        (X (sub (Position (ps instance')) ?origin)) (Y (sub (Position (ps instance')) ?origin))
        (Z (sub (Position (ps instance')) ?origin))
        (X (sub (AssemblyLinearVelocity (ps instance')) ?motion))
        (Y (sub (AssemblyLinearVelocity (ps instance')) ?motion))
        (Z (sub (AssemblyLinearVelocity (ps instance')) ?motion)) RADIUS_gen1 = Some t"
    then have p: "parry_gen1 (getName player) ?origin ?motion (ps instance') ball
        = (if t \<le> COMPENSATION then ([keypress 0x46, keyrelease 0x46], debounce ball)
           else ([], ball))"
      by (rule parry_gen1_decides)
    show "Heartbeat_gen1 ps cs player (earlier @ (instance', ball) # later)
            = (fst (Heartbeat_gen1 ps cs player earlier)
                 @ (if t \<le> COMPENSATION then [keypress 0x46, keyrelease 0x46] else [])
                 @ fst (Heartbeat_gen1 ps cs player later),
               snd (Heartbeat_gen1 ps cs player earlier)
                 @ (instance', if t \<le> COMPENSATION then debounce ball else ball)
                 # snd (Heartbeat_gen1 ps cs player later))"
      unfolding Heartbeat_gen1_candidates [OF ch] forEach_gen1_append forEach_gen1_Cons p
      by simp
  qed
next
  assume ch: "getCharacter player = Some c"
  let ?origin = "Position (ps (root (cs c)))"
  let ?motion = "mul (AssemblyLinearVelocity (ps (root (cs c)))) Vector2D"
  show "let origin = ?origin; motion = ?motion;
           position = sub (Position (ps (inst ball'))) origin;
           velocity = sub (AssemblyLinearVelocity (ps (inst ball'))) motion
       in canParry ball' \<longrightarrow> getTarget ball' = AString (getName player) \<longrightarrow>
          \<not> Magnitude position < RADIUS_gen2 \<longrightarrow>
          evaluateCylindricalCollision (X position) (Y position) (Z position)
            (X velocity) (Y velocity) (Z velocity) gravity RADIUS_gen2 HEIGHT = Some t' \<longrightarrow>
          Heartbeat_gen2 ps gravity cs player (Some ball')
            = (if Finite COMPENSATION \<le> t'
               then ([keypress 0x46, keyrelease 0x46], Some (debounce ball'))
               else ([], Some ball'))"
    unfolding Let_def
  proof (intro impI)
    assume "canParry ball'" and "getTarget ball' = AString (getName player)"
      and "\<not> Magnitude (sub (Position (ps (inst ball'))) ?origin) < RADIUS_gen2"
      and "evaluateCylindricalCollision
        (X (sub (Position (ps (inst ball'))) ?origin))
        (Y (sub (Position (ps (inst ball'))) ?origin))
        (Z (sub (Position (ps (inst ball'))) ?origin))
        (X (sub (AssemblyLinearVelocity (ps (inst ball'))) ?motion))
        (Y (sub (AssemblyLinearVelocity (ps (inst ball'))) ?motion))
        (Z (sub (AssemblyLinearVelocity (ps (inst ball'))) ?motion))
        gravity RADIUS_gen2 HEIGHT = Some t'"
    then have p: "parry_gen2 gravity (getName player) ?origin ?motion (ps (inst ball')) ball'
        = (if Finite COMPENSATION \<le> t'
           then ([keypress 0x46, keyrelease 0x46], debounce ball') else ([], ball'))"
      by (rule parry_gen2_decides)
    show "Heartbeat_gen2 ps gravity cs player (Some ball')
            = (if Finite COMPENSATION \<le> t'
               then ([keypress 0x46, keyrelease 0x46], Some (debounce ball'))
               else ([], Some ball'))"
      unfolding Heartbeat_gen2_candidate [OF ch] p by simp
  qed
qed

lemma sqrt_400: "sqrt 400 = 20"
  by (rule real_sqrt_unique) simp_all

lemma sqrt_490000: "sqrt 490000 = 700"
  by (rule real_sqrt_unique) simp_all

lemma sqrt_576: "sqrt 576 = 24"
  by (rule real_sqrt_unique) simp_all

lemma evaluateIntercept_example_gen1:
  "evaluateIntercept 0 0 20 0 0 (- 20) RADIUS_gen1 = Some (1 / 8)"
  by (simp add: evaluateIntercept_def Let_def RADIUS_gen1_def power2_eq_square sqrt_490000)

lemma evaluateCylindricalCollision_example_gen2:
  "evaluateCylindricalCollision 24 0 0 (- 10) 0 0 2 RADIUS_gen2 HEIGHT = Some (Finite (3 / 10))"
  by (simp add: evaluateCylindricalCollision_def radiusEntry_def Let_def RADIUS_gen2_def
      HEIGHT_def power2_eq_square sqrt_44100)

text \<open>
  A ball at distance \<open>20\<close> that approaches at speed \<open>20\<close> reaches the first
  generation's sphere after \<open>1 / 8\<close>, below the threshold, and the press and release
  are issued; a ball at distance \<open>24\<close> that approaches at speed \<open>10\<close> reaches the
  second generation's cylinder after \<open>3 / 10\<close>, above the threshold, and they are
  issued too.
\<close>

theorem parry_threshold_witness:
  "Heartbeat_gen1 (duel_parts \<lparr>X = 0, Y = 0, Z = 20\<rparr> \<lparr>X = 0, Y = 0, Z = - 20\<rparr>)
      (\<lambda>c. \<lparr>inst = 9, bin = new_Bin, root = 0, humanoid = 8\<rparr>)
      \<lparr>inst = 7, bin = new_Bin, name = ''me'', character = Some 0\<rparr>
      [(1, \<lparr>inst = 1, bin = new_Bin, active = True, target = AString ''me'', isHit = False\<rparr>)]
    = ([keypress 0x46, keyrelease 0x46],
       [(1, \<lparr>inst = 1, bin = new_Bin, active = True, target = AString ''me'', isHit = True\<rparr>)])
   \<and> (1 / 8 :: real) \<le> COMPENSATION
   \<and> Heartbeat_gen2 (duel_parts \<lparr>X = 24, Y = 0, Z = 0\<rparr> \<lparr>X = - 10, Y = 0, Z = 0\<rparr>) 2
      (\<lambda>c. \<lparr>inst = 9, bin = new_Bin, root = 0, humanoid = 8\<rparr>)
      \<lparr>inst = 7, bin = new_Bin, name = ''me'', character = Some 0\<rparr>
      (Some \<lparr>inst = 1, bin = new_Bin, active = True, target = AString ''me'', isHit = False\<rparr>)
    = ([keypress 0x46, keyrelease 0x46],
       Some \<lparr>inst = 1, bin = new_Bin, active = True, target = AString ''me'', isHit = True\<rparr>)
   \<and> Finite COMPENSATION \<le> Finite (3 / 10)"
proof -
  let ?ps1 = "duel_parts \<lparr>X = 0, Y = 0, Z = 20\<rparr> \<lparr>X = 0, Y = 0, Z = - 20\<rparr>"
  let ?ps2 = "duel_parts \<lparr>X = 24, Y = 0, Z = 0\<rparr> \<lparr>X = - 10, Y = 0, Z = 0\<rparr>"
  let ?cs = "\<lambda>c::nat. \<lparr>inst = 9, bin = new_Bin, root = 0, humanoid = 8\<rparr>"
  let ?me = "\<lparr>inst = 7, bin = new_Bin, name = ''me'', character = Some 0\<rparr>"
  let ?ball = "\<lparr>inst = 1, bin = new_Bin, active = True, target = AString ''me'', isHit = False\<rparr>"
  let ?o1 = "Position (?ps1 (root (?cs 0)))"
  let ?m1 = "mul (AssemblyLinearVelocity (?ps1 (root (?cs 0)))) Vector2D"
  let ?o2 = "Position (?ps2 (root (?cs 0)))"
  let ?m2 = "mul (AssemblyLinearVelocity (?ps2 (root (?cs 0)))) Vector2D"
  have ch: "getCharacter ?me = Some 0" by (simp add: getCharacter_def)
  have c: "canParry ?ball" and tg: "getTarget ?ball = AString (getName ?me)"
    by (simp_all add: canParry_def getTarget_def getName_def)
  have t: "(1 / 8 :: real) \<le> COMPENSATION" "Finite COMPENSATION \<le> Finite (3 / 10)"
    by (simp_all add: COMPENSATION_def)
  have none: "Heartbeat_gen1 ?ps1 ?cs ?me [] = ([], [])"
    by (simp add: Heartbeat_gen1_candidates [OF ch])
  have far1: "\<not> Magnitude (sub (Position (?ps1 1)) ?o1) < RADIUS_gen1"
    by (simp add: duel_parts_def sub_def Magnitude_def RADIUS_gen1_def sqrt_400)
  have e1: "evaluateIntercept
      (X (sub (Position (?ps1 1)) ?o1)) (Y (sub (Position (?ps1 1)) ?o1))
      (Z (sub (Position (?ps1 1)) ?o1))
      (X (sub (AssemblyLinearVelocity (?ps1 1)) ?m1))
      (Y (sub (AssemblyLinearVelocity (?ps1 1)) ?m1))
      (Z (sub (AssemblyLinearVelocity (?ps1 1)) ?m1)) RADIUS_gen1 = Some (1 / 8)"
    by (simp add: duel_parts_def sub_def mul_def Vector2D_def evaluateIntercept_example_gen1)
  have far2: "\<not> Magnitude (sub (Position (?ps2 (inst ?ball))) ?o2) < RADIUS_gen2"
    by (simp add: duel_parts_def sub_def Magnitude_def RADIUS_gen2_def sqrt_576)
  have e2: "evaluateCylindricalCollision
      (X (sub (Position (?ps2 (inst ?ball))) ?o2)) (Y (sub (Position (?ps2 (inst ?ball))) ?o2))
      (Z (sub (Position (?ps2 (inst ?ball))) ?o2))
      (X (sub (AssemblyLinearVelocity (?ps2 (inst ?ball))) ?m2))
      (Y (sub (AssemblyLinearVelocity (?ps2 (inst ?ball))) ?m2))
      (Z (sub (AssemblyLinearVelocity (?ps2 (inst ?ball))) ?m2)) 2 RADIUS_gen2 HEIGHT
      = Some (Finite (3 / 10))"
    by (simp add: duel_parts_def sub_def mul_def Vector2D_def
        evaluateCylindricalCollision_example_gen2)
  note g1 = parry_threshold [where player = "?me" and c = 0 and ps = "?ps1" and cs = "?cs"
      and instance' = 1 and ball = "?ball" and t = "1 / 8" and earlier = "[]" and later = "[]",
      THEN conjunct1, unfolded Let_def, rule_format, OF ch c tg far1 e1]
  note g2 = parry_threshold [where player = "?me" and c = 0 and ps = "?ps2" and cs = "?cs"
      and ball' = "?ball" and t' = "Finite (3 / 10)" and gravity = 2,
      THEN conjunct2, unfolded Let_def, rule_format, OF ch c tg far2 e2]
  have h1: "Heartbeat_gen1 ?ps1 ?cs ?me [(1, ?ball)]
      = ([keypress 0x46, keyrelease 0x46], [(1, debounce ?ball)])"
    using g1 t(1) by (simp add: none)
  have h2: "Heartbeat_gen2 ?ps2 2 ?cs ?me (Some ?ball)
      = ([keypress 0x46, keyrelease 0x46], Some (debounce ?ball))"
    using g2 t(2) by simp
  show ?thesis using h1 h2 t by (simp add: debounce_def)
qed

section \<open>bindToChild calls back at most once\<close>

lemma ChildAdded_each_disconnected:
  "connection s \<noteq> Some True \<Longrightarrow>
   callbacks (ChildAdded_each name' arrivals s) = callbacks s
   \<and> connection (ChildAdded_each name' arrivals s) = connection s"
  by (induction arrivals arbitrary: s) (simp_all add: ChildAdded_def Let_def)

lemma ChildAdded_each_connected:
  "connection s = Some True \<Longrightarrow>
   callbacks (ChildAdded_each name' arrivals s)
     = callbacks s @ (case FindFirstChild arrivals name' of Some c \<Rightarrow> [c] | None \<Rightarrow> [])
   \<and> connection (ChildAdded_each name' arrivals s) = Some (FindFirstChild arrivals name' = None)"
proof (induction arrivals arbitrary: s)
  case Nil
  then show ?case by (simp add: FindFirstChild_def)
next
  case (Cons child rest)
  show ?case
  proof (cases "Name child = name'")
    case True
    have "connection (ChildAdded name' child s) \<noteq> Some True"
      using Cons.prems True by (simp add: ChildAdded_def Let_def)
    from ChildAdded_each_disconnected [OF this, of name' rest]
    show ?thesis using Cons.prems True by (simp add: ChildAdded_def Let_def FindFirstChild_def)
  next
    case False
    have "connection (ChildAdded name' child s) = Some True"
      using Cons.prems False by (simp add: ChildAdded_def Let_def)
    from Cons.IH [OF this]
    show ?thesis using Cons.prems False by (simp add: ChildAdded_def Let_def FindFirstChild_def)
  qed
qed

text \<open>
  Claim C8. Whatever children the parent has and whatever children arrive later, the
  callback is called at most once: with the existing child of that name, in which case
  no connection is made; otherwise with the first arriving child of that name, after
  which the connection is disconnected; otherwise not at all, the connection staying
  connected.
\<close>

theorem bindToChild_once:
  "length (callbacks (ChildAdded_each name' arrivals (bindToChild parent name'))) \<le> 1
   \<and> callbacks (ChildAdded_each name' arrivals (bindToChild parent name'))
       = (case FindFirstChild parent name' of
            Some c \<Rightarrow> [c]
          | None \<Rightarrow> (case FindFirstChild arrivals name' of Some c \<Rightarrow> [c] | None \<Rightarrow> []))
   \<and> connection (ChildAdded_each name' arrivals (bindToChild parent name'))
       = (case FindFirstChild parent name' of
            Some c \<Rightarrow> None
          | None \<Rightarrow> Some (FindFirstChild arrivals name' = None))"
proof (cases "FindFirstChild parent name'")
  case None
  then have "connection (bindToChild parent name') = Some True"
    and "callbacks (bindToChild parent name') = []"
    by (simp_all add: bindToChild_def)
  with ChildAdded_each_connected [of "bindToChild parent name'" name' arrivals] None
  show ?thesis by (simp split: option.splits)
next
  case (Some c)
  then have "connection (bindToChild parent name') \<noteq> Some True"
    and "callbacks (bindToChild parent name') = [c]"
    by (simp_all add: bindToChild_def)
  with ChildAdded_each_disconnected [of "bindToChild parent name'" name' arrivals] Some
  show ?thesis by (simp add: bindToChild_def)
qed

theorem bindToChild_once_witness:
  "callbacks (ChildAdded_each ''Balls''
       [\<lparr>Name = ''Alive'', ident = 1\<rparr>, \<lparr>Name = ''Balls'', ident = 2\<rparr>,
        \<lparr>Name = ''Balls'', ident = 3\<rparr>]
       (bindToChild [\<lparr>Name = ''Camera'', ident = 0\<rparr>] ''Balls''))
     = [\<lparr>Name = ''Balls'', ident = 2\<rparr>]
   \<and> connection (ChildAdded_each ''Balls''
       [\<lparr>Name = ''Alive'', ident = 1\<rparr>, \<lparr>Name = ''Balls'', ident = 2\<rparr>,
        \<lparr>Name = ''Balls'', ident = 3\<rparr>]
       (bindToChild [\<lparr>Name = ''Camera'', ident = 0\<rparr>] ''Balls'')) = Some False"
proof -
  have p: "FindFirstChild [\<lparr>Name = ''Camera'', ident = 0\<rparr>] ''Balls'' = None"
    by (simp add: FindFirstChild_def)
  have a: "FindFirstChild [\<lparr>Name = ''Alive'', ident = 1\<rparr>, \<lparr>Name = ''Balls'', ident = 2\<rparr>,
        \<lparr>Name = ''Balls'', ident = 3\<rparr>] ''Balls'' = Some \<lparr>Name = ''Balls'', ident = 2\<rparr>"
    by (simp add: FindFirstChild_def)
  from bindToChild_once [of "''Balls''"
      "[\<lparr>Name = ''Alive'', ident = 1\<rparr>, \<lparr>Name = ''Balls'', ident = 2\<rparr>,
        \<lparr>Name = ''Balls'', ident = 3\<rparr>]" "[\<lparr>Name = ''Camera'', ident = 0\<rparr>]"]
  show ?thesis unfolding p a by simp
qed

section \<open>The module guard\<close>

text \<open>
  Claim C9. With the guard set, loading the module throws and leaves the process state
  as it was, whatever the body of the module is: nothing of the body has run. With the
  guard not set, the load sets it, and every later load throws and changes nothing.
\<close>

theorem module_guard:
  "(G p ''bladeball'' \<longrightarrow>
      module_main body p = (Some ''This program is already running!'', p))
   \<and> (\<not> G p ''bladeball'' \<longrightarrow>
      G (snd (module_main body p)) ''bladeball''
      \<and> module_main body' (snd (module_main body p))
          = (Some ''This program is already running!'', snd (module_main body p)))"
proof (intro conjI impI)
  assume "G p ''bladeball''"
  then show "module_main body p = (Some ''This program is already running!'', p)"
    by (simp add: module_main_def)
next
  assume n: "\<not> G p ''bladeball''"
  then show g: "G (snd (module_main body p)) ''bladeball''"
    by (simp add: module_main_def Let_def split: prod.splits)
  then show "module_main body' (snd (module_main body p))
          = (Some ''This program is already running!'', snd (module_main body p))"
    by (simp add: module_main_def)
qed

theorem module_guard_witness:
  "\<not> G \<lparr>G = (\<lambda>k. False), runtime = \<lparr>children = [], connection = None, callbacks = []\<rparr>\<rparr> ''bladeball''
   \<and> module_main bind_Balls
        \<lparr>G = (\<lambda>k. False), runtime = \<lparr>children = [], connection = None, callbacks = []\<rparr>\<rparr>
      = (None, \<lparr>G = (\<lambda>k. False)(''bladeball'' := True),
                runtime = \<lparr>children = [], connection = Some True, callbacks = []\<rparr>\<rparr>)
   \<and> G \<lparr>G = (\<lambda>k. False)(''bladeball'' := True),
         runtime = \<lparr>children = [], connection = Some True, callbacks = []\<rparr>\<rparr> ''bladeball''
   \<and> module_main bind_Balls
        \<lparr>G = (\<lambda>k. False)(''bladeball'' := True),
         runtime = \<lparr>children = [], connection = Some True, callbacks = []\<rparr>\<rparr>
      = (Some ''This program is already running!'',
         \<lparr>G = (\<lambda>k. False)(''bladeball'' := True),
          runtime = \<lparr>children = [], connection = Some True, callbacks = []\<rparr>\<rparr>)"
proof -
  let ?p = "\<lparr>G = (\<lambda>k. False), runtime = \<lparr>children = [], connection = None, callbacks = []\<rparr>\<rparr>"
  have first: "module_main bind_Balls ?p
      = (None, \<lparr>G = (\<lambda>k. False)(''bladeball'' := True),
                runtime = \<lparr>children = [], connection = Some True, callbacks = []\<rparr>\<rparr>)"
    by (simp add: module_main_def bind_Balls_def bindToChild_def
        FindFirstChild_def Let_def)
  from module_guard [where p = "?p" and body = bind_Balls
      and body' = bind_Balls] first
  show ?thesis by simp
qed

section \<open>BallComponent.active is live and active\<close>

lemma Bin_isEmpty_items: "Bin_inv b \<Longrightarrow> Bin_isEmpty b \<longleftrightarrow> Bin_items b = []"
  by (auto simp: Bin_inv_def Bin_isEmpty_def Bin_items_def first_pending_def split: option.splits)

lemma BallWorld_inv_initial: "BallWorld_inv (initial_BallWorld ps)"
  by (simp add: BallWorld_inv_def initial_BallWorld_def active_ok_def)

lemma updateTarget_inv:
  assumes "BallWorld_inv w" and "this < length (ballComponents w)"
  shows "BallWorld_inv (updateTarget this w)"
  using assms
  by (auto simp: BallWorld_inv_def ball_ok_def active_ok_def updateTarget_def Let_def
      nth_list_update destroyed_def isActive_def split: option.splits)

lemma updateActive_inv:
  assumes "BallWorld_inv w" and "this < length (ballComponents w)"
    and "Bin_items (bin (ballComponents w ! this)) \<noteq> []"
  shows "BallWorld_inv (updateActive this w)"
  using assms
  by (auto simp: BallWorld_inv_def ball_ok_def active_ok_def updateActive_def Let_def
      nth_list_update destroyed_def isActive_def Bin_isEmpty_items split: option.splits)

lemma new_BallComponent_bin:
  "Bin_inv (Bin_batch (Bin_batch new_Bin
       [Connection (realBall_changed this), Connection (target_changed this)])
       [Callback (unregister_ball this), Connection (ball_Destroying this)])
   \<and> Bin_items (Bin_batch (Bin_batch new_Bin
       [Connection (realBall_changed this), Connection (target_changed this)])
       [Callback (unregister_ball this), Connection (ball_Destroying this)]) = ball_handles this"
  by (simp add: Bin_batch_inv Bin_batch_items Bin_inv_new Bin_items_new ball_handles_def
      del: Bin_batch.simps)

lemma new_BallComponent_inv:
  assumes "BallWorld_inv w"
  shows "BallWorld_inv (new_BallComponent instance' w)"
proof -
  note b = new_BallComponent_bin [of "length (ballComponents w)"]
  have nonempty: "ball_handles (length (ballComponents w)) \<noteq> []"
    by (simp add: ball_handles_def)
  show ?thesis
    using assms b nonempty
    by (auto simp: BallWorld_inv_def ball_ok_def active_ok_def new_BallComponent_def
        updateActive_def updateTarget_def Connect_def Let_def nth_append nth_list_update
        destroyed_def isActive_def Bin_isEmpty_items less_Suc_eq
        simp del: Bin_batch.simps split: option.splits)
qed

lemma BallComponent_destroy_inv:
  assumes inv: "BallWorld_inv w" and lt: "this < length (ballComponents w)"
  shows "\<exists>w'. BallComponent_destroy this w = Some w' \<and> BallWorld_inv w'
           \<and> length (ballComponents w') = length (ballComponents w)"
proof -
  let ?ball = "ballComponents w ! this"
  have ok: "ball_ok w this" using inv lt by (simp add: BallWorld_inv_def)
  then have binv: "Bin_inv (bin ?ball)" by (simp add: ball_ok_def)
  note d = Bin_destroy_inv [OF binv]
  from ok consider
    (live) "Bin_items (bin ?ball) = ball_handles this"
  | (dead) "Bin_items (bin ?ball) = []"
    by (auto simp: ball_ok_def)
  then show ?thesis
  proof cases
    case live
    show ?thesis
      using inv lt binv
      by (auto simp: BallComponent_destroy_def d live ball_handles_def BallWorld_inv_def
          ball_ok_def active_ok_def nth_list_update destroyed_def isActive_def
          Bin_inv_emptied Bin_items_emptied Bin_isEmpty_items split: option.splits)
  next
    case dead
    show ?thesis
      using inv lt binv
      by (auto simp: BallComponent_destroy_def d dead BallWorld_inv_def
          ball_ok_def active_ok_def nth_list_update destroyed_def isActive_def
          Bin_inv_emptied Bin_items_emptied Bin_isEmpty_items split: option.splits)
  qed
qed

lemma length_updateActive [simp]:
  "length (ballComponents (updateActive this w)) = length (ballComponents w)"
  by (simp add: updateActive_def Let_def)

lemma length_updateTarget [simp]:
  "length (ballComponents (updateTarget this w)) = length (ballComponents w)"
  by (simp add: updateTarget_def Let_def)

lemma connected_live:
  assumes "BallWorld_inv w" and "this < length (ballComponents w)"
    and "realBall_changed this \<in> connected w"
  shows "Bin_items (bin (ballComponents w ! this)) \<noteq> []"
  using assms by (auto simp: BallWorld_inv_def ball_ok_def ball_handles_def)

lemma fire_changed_inv:
  assumes step: "\<And>w this. BallWorld_inv w \<Longrightarrow> this < length (ballComponents w) \<Longrightarrow>
      conn this \<in> connected w \<Longrightarrow>
      BallWorld_inv (handler this w)
      \<and> length (ballComponents (handler this w)) = length (ballComponents w)"
  shows "BallWorld_inv w \<Longrightarrow> \<forall>this \<in> set cs. this < length (ballComponents w) \<Longrightarrow>
      BallWorld_inv (fire_changed conn handler p cs w)
      \<and> length (ballComponents (fire_changed conn handler p cs w)) = length (ballComponents w)"
proof (induction cs arbitrary: w)
  case Nil
  then show ?case by simp
next
  case (Cons this cs)
  let ?w = "if inst (ballComponents w ! this) = p \<and> conn this \<in> connected w
            then handler this w else w"
  have lt: "this < length (ballComponents w)" using Cons.prems(2) by simp
  have w: "BallWorld_inv ?w \<and> length (ballComponents ?w) = length (ballComponents w)"
    using step [OF Cons.prems(1) lt] Cons.prems(1) by simp
  then have "\<forall>c \<in> set cs. c < length (ballComponents ?w)"
    using Cons.prems(2) by simp
  from Cons.IH [OF conjunct1 [OF w] this] w show ?case by simp
qed

lemma fire_Destroying_inv:
  "BallWorld_inv w \<Longrightarrow> \<forall>this \<in> set cs. this < length (ballComponents w) \<Longrightarrow>
     \<exists>w'. fire_Destroying p cs w = Some w' \<and> BallWorld_inv w'
           \<and> length (ballComponents w') = length (ballComponents w)"
proof (induction cs arbitrary: w)
  case Nil
  then show ?case by simp
next
  case (Cons this cs)
  have lt: "this < length (ballComponents w)" using Cons.prems(2) by simp
  show ?case
  proof (cases "inst (ballComponents w ! this) = p \<and> ball_Destroying this \<in> connected w")
    case True
    from BallComponent_destroy_inv [OF Cons.prems(1) lt]
    obtain w1 where d: "BallComponent_destroy this w = Some w1" and i: "BallWorld_inv w1"
      and l: "length (ballComponents w1) = length (ballComponents w)" by blast
    have "\<forall>c \<in> set cs. c < length (ballComponents w1)" using Cons.prems(2) l by simp
    from Cons.IH [OF i this] show ?thesis using True d l by simp
  next
    case False
    have "\<forall>c \<in> set cs. c < length (ballComponents w)" using Cons.prems(2) by simp
    from Cons.IH [OF Cons.prems(1) this] show ?thesis using False by auto
  qed
qed

lemma SetAttribute_inv: "BallWorld_inv w \<Longrightarrow> BallWorld_inv (SetAttribute p k v w)"
  by (auto simp: BallWorld_inv_def ball_ok_def active_ok_def SetAttribute_def
      split: option.splits)

lemma debounce_inv:
  "BallWorld_inv w \<Longrightarrow> this < length (ballComponents w) \<Longrightarrow>
   BallWorld_inv (BallComponent_debounce this w)"
  by (auto simp: BallWorld_inv_def ball_ok_def active_ok_def BallComponent_debounce_def
      debounce_def nth_list_update destroyed_def isActive_def split: option.splits)

lemma ball_step_inv:
  assumes "BallWorld_inv w"
  shows "\<exists>w'. ball_step e w = Some w' \<and> BallWorld_inv w'"
proof (cases e)
  case (BallAdded p)
  then show ?thesis using assms by (simp add: new_BallComponent_inv)
next
  case (AttributeChanged p k v)
  let ?w = "SetAttribute p k v w"
  have i: "BallWorld_inv ?w" using assms by (rule SetAttribute_inv)
  have all: "\<forall>this \<in> set [0..<length (ballComponents ?w)]. this < length (ballComponents ?w)"
    by simp
  have a: "BallWorld_inv (fire_changed realBall_changed updateActive p
             [0..<length (ballComponents ?w)] ?w)"
    using fire_changed_inv [where conn = realBall_changed and handler = updateActive, OF _ i all]
    by (simp add: updateActive_inv connected_live)
  have t: "BallWorld_inv (fire_changed target_changed updateTarget p
             [0..<length (ballComponents ?w)] ?w)"
    using fire_changed_inv [where conn = target_changed and handler = updateTarget, OF _ i all]
    by (simp add: updateTarget_inv)
  show ?thesis using AttributeChanged i a t by (auto simp: Let_def)
next
  case (Destroying p)
  have "\<forall>this \<in> set [0..<length (ballComponents w)]. this < length (ballComponents w)"
    by simp
  from fire_Destroying_inv [OF assms this] show ?thesis using Destroying by auto
next
  case (CallDebounce this)
  then show ?thesis using assms by (simp add: debounce_inv)
next
  case (CallDestroy this)
  then show ?thesis using assms BallComponent_destroy_inv [OF assms, of this] by auto
qed

lemma ball_run_inv:
  "BallWorld_inv w \<Longrightarrow> \<exists>w'. ball_run es w = Some w' \<and> BallWorld_inv w'"
proof (induction es arbitrary: w)
  case Nil
  then show ?case by simp
next
  case (Cons e es)
  from ball_step_inv [OF Cons.prems, of e]
  obtain w1 where s: "ball_step e w = Some w1" and i: "BallWorld_inv w1" by blast
  from Cons.IH [OF i] show ?case using s by simp
qed

text \<open>
  The constructor leaves a component not destroyed, and \<open>destroy()\<close> leaves it destroyed.
\<close>

lemma new_BallComponent_not_destroyed:
  "\<not> destroyed (ballComponents (new_BallComponent instance' w) ! length (ballComponents w))"
proof -
  note b = new_BallComponent_bin [of "length (ballComponents w)"]
  have "bin (ballComponents (new_BallComponent instance' w) ! length (ballComponents w))
      = Bin_batch (Bin_batch new_Bin
          [Connection (realBall_changed (length (ballComponents w))),
           Connection (target_changed (length (ballComponents w)))])
          [Callback (unregister_ball (length (ballComponents w))),
           Connection (ball_Destroying (length (ballComponents w)))]"
    by (simp add: new_BallComponent_def updateActive_def updateTarget_def Connect_def Let_def
        del: Bin_batch.simps)
  then show ?thesis
    using b by (simp add: destroyed_def Bin_isEmpty_items ball_handles_def del: Bin_batch.simps)
qed

lemma foldl_disposed_components:
  "ballComponents (foldl disposed v xs) = ballComponents v"
proof (induction xs arbitrary: v)
  case Nil
  show ?case by simp
next
  case (Cons x xs)
  have "ballComponents (disposed v x) = ballComponents v"
    by (cases "(v, x)" rule: disposed.cases) simp_all
  then show ?case by (simp add: Cons.IH)
qed

lemma BallComponent_destroy_destroyed:
  assumes inv: "BallWorld_inv w" and lt: "this < length (ballComponents w)"
    and d: "BallComponent_destroy this w = Some w'"
  shows "destroyed (ballComponents w' ! this)"
proof -
  have "Bin_inv (bin (ballComponents w ! this))"
    using inv lt by (simp add: BallWorld_inv_def ball_ok_def)
  from Bin_destroy_inv [OF this] d
  have "ballComponents w' = (ballComponents w)[this := (ballComponents w ! this)
      \<lparr>bin := (bin (ballComponents w ! this))\<lparr>head := None\<rparr>\<rparr>]"
    by (auto simp: BallComponent_destroy_def foldl_disposed_components)
  then show ?thesis using lt by (simp add: destroyed_def Bin_isEmpty_def)
qed

text \<open>
  Claim C10. Every sequence of events runs to a state, and in that state
  \<open>BallComponent.active\<close>, when defined, is a component that has not been destroyed and
  whose \<open>isActive()\<close> is true.
\<close>

theorem BallComponent_active_live:
  "\<exists>w. ball_run es (initial_BallWorld ps) = Some w
       \<and> (case BallComponent_active w of
            None \<Rightarrow> True
          | Some this \<Rightarrow>
              this < length (ballComponents w)
              \<and> \<not> destroyed (ballComponents w ! this)
              \<and> isActive (ballComponents w ! this))"
  using ball_run_inv [OF BallWorld_inv_initial, of es ps]
  by (auto simp: BallWorld_inv_def active_ok_def)

lemma ball_run_example:
  "map_option BallComponent_active
     (ball_run [BallAdded 0, AttributeChanged 0 ''realBall'' (ABool True), CallDebounce 0]
        (initial_BallWorld still_parts)) = Some (Some 0)
   \<and> map_option BallComponent_active
     (ball_run [BallAdded 0, AttributeChanged 0 ''realBall'' (ABool True), BallAdded 1,
                AttributeChanged 0 ''realBall'' (ABool False)]
        (initial_BallWorld still_parts)) = Some None"
  by code_simp

theorem BallComponent_active_live_witness:
  "\<exists>w. ball_run [BallAdded 0, AttributeChanged 0 ''realBall'' (ABool True), CallDebounce 0]
         (initial_BallWorld still_parts) = Some w
       \<and> BallComponent_active w = Some 0
       \<and> 0 < length (ballComponents w)
       \<and> \<not> destroyed (ballComponents w ! 0)
       \<and> isActive (ballComponents w ! 0)"
proof -
  let ?es = "[BallAdded 0, AttributeChanged 0 ''realBall'' (ABool True), CallDebounce 0]"
  from BallComponent_active_live [of ?es still_parts] obtain w where
    run: "ball_run ?es (initial_BallWorld still_parts) = Some w"
    and ok: "case BallComponent_active w of
            None \<Rightarrow> True
          | Some this \<Rightarrow>
              this < length (ballComponents w)
              \<and> \<not> destroyed (ballComponents w ! this)
              \<and> isActive (ballComponents w ! this)"
    by blast
  have a: "BallComponent_active w = Some 0"
    using ball_run_example run by simp
  from ok have "0 < length (ballComponents w) \<and> \<not> destroyed (ballComponents w ! 0)
       \<and> isActive (ballComponents w ! 0)"
    unfolding a by simp
  with run a show ?thesis by blast
qed

section \<open>CharacterComponent.active is never filled\<close>

text \<open>
  No constructor, handler or disposal writes \<open>CharacterComponent.active\<close>: every
  operation of a player leaves it as it finds it.
\<close>

lemma rig_disposed_registry:
  "CharacterComponent_active (foldl rig_disposed w ds) = CharacterComponent_active w"
proof (induction ds arbitrary: w)
  case Nil
  show ?case by simp
next
  case (Cons d ds)
  have "CharacterComponent_active (rig_disposed w d) = CharacterComponent_active w"
    by (cases "(w, d)" rule: rig_disposed.cases) simp_all
  then show ?case by (simp add: Cons.IH)
qed

lemma CharacterComponent_destroy_registry:
  "CharacterComponent_destroy this w = Some w' \<Longrightarrow>
   CharacterComponent_active w' = CharacterComponent_active w"
  by (auto simp: CharacterComponent_destroy_def rig_disposed_registry split: option.splits)

lemma PlayerComponent_destroy_registry:
  "PlayerComponent_destroy w = Some w' \<Longrightarrow>
   CharacterComponent_active w' = CharacterComponent_active w"
  by (auto simp: PlayerComponent_destroy_def rig_disposed_registry split: option.splits)

lemma destroy_character_registry:
  "destroy_character w = Some w' \<Longrightarrow> CharacterComponent_active w' = CharacterComponent_active w"
  by (auto simp: destroy_character_def CharacterComponent_destroy_registry split: option.splits)

lemma from_WaitForChild_Humanoid_registry:
  "CharacterComponent_active (from_WaitForChild_Humanoid m r w) = CharacterComponent_active w"
  by (simp add: from_WaitForChild_Humanoid_def Connect_def Let_def split: option.splits)

lemma from_WaitForChild_HumanoidRootPart_registry:
  "CharacterComponent_active (from_WaitForChild_HumanoidRootPart m w)
   = CharacterComponent_active w"
  by (simp add: from_WaitForChild_HumanoidRootPart_def from_WaitForChild_Humanoid_registry
      split: option.splits)

lemma resume_registry: "CharacterComponent_active (resume th w) = CharacterComponent_active w"
  by (cases th)
    (simp_all add: from_WaitForChild_HumanoidRootPart_registry
      from_WaitForChild_Humanoid_registry)

lemma onCharacterAdded_registry:
  "onCharacterAdded m w = Some w' \<Longrightarrow> CharacterComponent_active w' = CharacterComponent_active w"
  by (auto simp: onCharacterAdded_def from_WaitForChild_HumanoidRootPart_registry
      destroy_character_registry split: option.splits)

lemma onCharacterRemoving_registry:
  "onCharacterRemoving w = Some w' \<Longrightarrow> CharacterComponent_active w' = CharacterComponent_active w"
  by (auto simp: onCharacterRemoving_def destroy_character_registry split: option.splits)

lemma fire_rig_registry:
  "fire_rig source conn x cs w = Some w' \<Longrightarrow>
   CharacterComponent_active w' = CharacterComponent_active w"
proof (induction cs arbitrary: w)
  case Nil
  then show ?case by simp
next
  case (Cons this cs)
  show ?case
  proof (cases "source (characterComponents w ! this) = x \<and> conn this \<in> connected w")
    case True
    with Cons.prems obtain w1 where d: "CharacterComponent_destroy this w = Some w1"
      and f: "fire_rig source conn x cs w1 = Some w'"
      by (auto split: option.splits)
    from Cons.IH [OF f] CharacterComponent_destroy_registry [OF d] show ?thesis by simp
  next
    case False
    with Cons.prems have "fire_rig source conn x cs w = Some w'" by auto
    then show ?thesis by (rule Cons.IH)
  qed
qed

lemma player_step_registry:
  assumes "player_step e w = Some w'"
  shows "CharacterComponent_active w' = CharacterComponent_active w"
proof (cases e)
  case (CharacterAdded_fired m)
  with assms show ?thesis by (auto simp: onCharacterAdded_registry split: if_splits)
next
  case CharacterRemoving_fired
  with assms show ?thesis by (auto simp: onCharacterRemoving_registry split: if_splits)
next
  case (ChildAdded_fired m name' child)
  with assms show ?thesis by auto
next
  case (Resumed k)
  with assms show ?thesis by (auto simp: resume_registry split: if_splits)
next
  case (Died_fired h)
  with assms show ?thesis by (auto simp: fire_rig_registry)
next
  case (Destroying_fired m)
  with assms show ?thesis by (auto simp: fire_rig_registry)
next
  case PlayerRemoving_fired
  with assms show ?thesis by (auto simp: PlayerComponent_destroy_registry split: if_splits)
qed

lemma player_run_registry:
  "player_run es w = Some w' \<Longrightarrow> CharacterComponent_active w' = CharacterComponent_active w"
proof (induction es arbitrary: w)
  case Nil
  then show ?case by simp
next
  case (Cons e es)
  then obtain w1 where s: "player_step e w = Some w1" and r: "player_run es w1 = Some w'"
    by (auto split: option.splits)
  from Cons.IH [OF r] player_step_registry [OF s] show ?case by simp
qed

lemma new_PlayerComponent_registry:
  assumes "new_PlayerComponent i nm ch ms = Some w"
  shows "CharacterComponent_active w = []"
proof (cases ch)
  case None
  with assms show ?thesis
    by (auto simp: new_PlayerComponent_def Connect_def Let_def)
next
  case (Some m)
  let ?w0 = "\<lparr>connected = {}, models = ms, characterComponents = [],
              CharacterComponent_active = [],
              playerComponent = \<lparr>inst = i, bin = new_Bin, name = nm, character = None\<rparr>,
              PlayerComponent_active = [], threads = []\<rparr>"
  from assms Some obtain w1 where a: "onCharacterAdded m ?w0 = Some w1"
    and w: "CharacterComponent_active w = CharacterComponent_active w1"
    by (auto simp: new_PlayerComponent_def Connect_def Let_def split: option.splits)
  from onCharacterAdded_registry [OF a] w show ?thesis by simp
qed

lemma registry_never_filled:
  assumes "new_PlayerComponent i nm ch ms = Some w0" and "player_run es w0 = Some w"
  shows "CharacterComponent_active w = []"
  using player_run_registry [OF assms(2)] new_PlayerComponent_registry [OF assms(1)] by simp

text \<open>
  Every operation of a player returns: the bins it runs are well formed.
\<close>

lemma rig_disposed_frame:
  "characterComponents (foldl rig_disposed w ds) = characterComponents w
   \<and> playerComponent (foldl rig_disposed w ds) = playerComponent w"
proof (induction ds arbitrary: w)
  case Nil
  show ?case by simp
next
  case (Cons d ds)
  have "characterComponents (rig_disposed w d) = characterComponents w
      \<and> playerComponent (rig_disposed w d) = playerComponent w"
    by (cases "(w, d)" rule: rig_disposed.cases) simp_all
  then show ?case by (simp add: Cons.IH)
qed

lemma bins_ok_frame:
  assumes "bins_ok w" and "characterComponents w' = characterComponents w"
    and "playerComponent w' = playerComponent w"
  shows "bins_ok w'"
  using assms by (simp add: bins_ok_def)

lemma CharacterComponent_destroy_returns:
  assumes ok: "bins_ok w" and lt: "this < length (characterComponents w)"
  shows "\<exists>w'. CharacterComponent_destroy this w = Some w' \<and> bins_ok w'
           \<and> length (characterComponents w') = length (characterComponents w)"
proof -
  let ?c = "characterComponents w ! this"
  let ?w1 = "w\<lparr>characterComponents := (characterComponents w)[this := ?c\<lparr>bin := (bin ?c)\<lparr>head := None\<rparr>\<rparr>]\<rparr>"
  let ?ds = "concat (map disposal_of (Bin_items (bin ?c)))"
  have b: "Bin_inv (bin ?c)" using ok lt by (simp add: bins_ok_def)
  have d: "CharacterComponent_destroy this w = Some (foldl rig_disposed ?w1 ?ds)"
    by (simp add: CharacterComponent_destroy_def Bin_destroy_inv [OF b])
  have ok1: "bins_ok ?w1"
    using ok lt Bin_inv_emptied [OF b] by (auto simp: bins_ok_def nth_list_update)
  have "bins_ok (foldl rig_disposed ?w1 ?ds)"
    by (rule bins_ok_frame [OF ok1]) (simp_all add: rig_disposed_frame)
  moreover have "length (characterComponents (foldl rig_disposed ?w1 ?ds))
      = length (characterComponents w)"
    using rig_disposed_frame [of ?w1 ?ds] by simp
  ultimately show ?thesis using d by simp
qed

lemma PlayerComponent_destroy_returns:
  assumes ok: "bins_ok w"
  shows "\<exists>w'. PlayerComponent_destroy w = Some w' \<and> bins_ok w'"
proof -
  let ?p = "playerComponent w"
  let ?w1 = "w\<lparr>playerComponent := ?p\<lparr>bin := (bin ?p)\<lparr>head := None\<rparr>\<rparr>\<rparr>"
  let ?ds = "concat (map disposal_of (Bin_items (bin ?p)))"
  have b: "Bin_inv (bin ?p)" using ok by (simp add: bins_ok_def)
  have d: "PlayerComponent_destroy w = Some (foldl rig_disposed ?w1 ?ds)"
    by (simp add: PlayerComponent_destroy_def Bin_destroy_inv [OF b])
  have ok1: "bins_ok ?w1"
    using ok Bin_inv_emptied [OF b] by (auto simp: bins_ok_def)
  have "bins_ok (foldl rig_disposed ?w1 ?ds)"
    by (rule bins_ok_frame [OF ok1]) (simp_all add: rig_disposed_frame)
  then show ?thesis using d by simp
qed

lemma destroy_character_returns:
  assumes ok: "bins_ok w"
  shows "\<exists>w'. destroy_character w = Some w' \<and> bins_ok w'"
proof (cases "character (playerComponent w)")
  case None
  then show ?thesis using ok by (simp add: destroy_character_def)
next
  case (Some c)
  then have "c < length (characterComponents w)" using ok by (simp add: bins_ok_def)
  from CharacterComponent_destroy_returns [OF ok this] show ?thesis
    using Some by (auto simp: destroy_character_def)
qed

lemma rig_bin:
  "Bin_inv (Bin_batch new_Bin [Connection (humanoid_Died this), Connection (model_Destroying this)])"
  by (intro Bin_batch_inv Bin_inv_new)

lemma from_WaitForChild_Humanoid_ok:
  assumes "bins_ok w"
  shows "bins_ok (from_WaitForChild_Humanoid m r w)"
  using assms rig_bin [of "length (characterComponents w)"]
  by (auto simp: from_WaitForChild_Humanoid_def bins_ok_def Connect_def Let_def nth_append
      less_Suc_eq simp del: Bin_batch.simps split: option.splits)

lemma from_WaitForChild_HumanoidRootPart_ok:
  assumes "bins_ok w"
  shows "bins_ok (from_WaitForChild_HumanoidRootPart m w)"
proof (cases "HumanoidRootPart (models w m)")
  case None
  then show ?thesis using assms by (simp add: from_WaitForChild_HumanoidRootPart_def bins_ok_def)
next
  case (Some r)
  then show ?thesis
    using assms by (simp add: from_WaitForChild_HumanoidRootPart_def from_WaitForChild_Humanoid_ok)
qed

lemma resume_ok: "bins_ok w \<Longrightarrow> bins_ok (resume th w)"
  by (cases th) (simp_all add: from_WaitForChild_HumanoidRootPart_ok from_WaitForChild_Humanoid_ok)

lemma onCharacterAdded_returns:
  assumes ok: "bins_ok w"
  shows "\<exists>w'. onCharacterAdded m w = Some w' \<and> bins_ok w'"
  using destroy_character_returns [OF ok]
  by (auto simp: onCharacterAdded_def from_WaitForChild_HumanoidRootPart_ok)

lemma onCharacterRemoving_returns:
  assumes ok: "bins_ok w"
  shows "\<exists>w'. onCharacterRemoving w = Some w' \<and> bins_ok w'"
  using destroy_character_returns [OF ok]
  by (auto simp: onCharacterRemoving_def bins_ok_def)

lemma fire_rig_returns:
  "bins_ok w \<Longrightarrow> \<forall>this \<in> set cs. this < length (characterComponents w) \<Longrightarrow>
   \<exists>w'. fire_rig source conn x cs w = Some w' \<and> bins_ok w'"
proof (induction cs arbitrary: w)
  case Nil
  then show ?case by simp
next
  case (Cons this cs)
  have lt: "this < length (characterComponents w)" using Cons.prems(2) by simp
  show ?case
  proof (cases "source (characterComponents w ! this) = x \<and> conn this \<in> connected w")
    case True
    from CharacterComponent_destroy_returns [OF Cons.prems(1) lt]
    obtain w1 where d: "CharacterComponent_destroy this w = Some w1" and ok1: "bins_ok w1"
      and l: "length (characterComponents w1) = length (characterComponents w)" by blast
    have "\<forall>c \<in> set cs. c < length (characterComponents w1)" using Cons.prems(2) l by simp
    from Cons.IH [OF ok1 this] show ?thesis using True d by simp
  next
    case False
    have "\<forall>c \<in> set cs. c < length (characterComponents w)" using Cons.prems(2) by simp
    from Cons.IH [OF Cons.prems(1) this] show ?thesis using False by auto
  qed
qed

lemma player_step_returns:
  assumes ok: "bins_ok w"
  shows "\<exists>w'. player_step e w = Some w' \<and> bins_ok w'"
proof (cases e)
  case (CharacterAdded_fired m)
  then show ?thesis using ok onCharacterAdded_returns [OF ok, of m] by auto
next
  case CharacterRemoving_fired
  then show ?thesis using ok onCharacterRemoving_returns [OF ok] by auto
next
  case (ChildAdded_fired m name' child)
  then show ?thesis using ok by (simp add: bins_ok_def)
next
  case (Resumed k)
  have "bins_ok (w\<lparr>threads := take k (threads w) @ drop (Suc k) (threads w)\<rparr>)"
    using ok by (simp add: bins_ok_def)
  then show ?thesis using Resumed ok by (simp add: resume_ok)
next
  case (Died_fired h)
  have "\<forall>this \<in> set [0..<length (characterComponents w)]. this < length (characterComponents w)"
    by simp
  from fire_rig_returns [OF ok this] show ?thesis using Died_fired by simp
next
  case (Destroying_fired m)
  have "\<forall>this \<in> set [0..<length (characterComponents w)]. this < length (characterComponents w)"
    by simp
  from fire_rig_returns [OF ok this] show ?thesis using Destroying_fired by simp
next
  case PlayerRemoving_fired
  then show ?thesis using ok PlayerComponent_destroy_returns [OF ok] by auto
qed

lemma player_run_returns:
  "bins_ok w \<Longrightarrow> \<exists>w'. player_run es w = Some w' \<and> bins_ok w'"
proof (induction es arbitrary: w)
  case Nil
  then show ?case by simp
next
  case (Cons e es)
  from player_step_returns [OF Cons.prems, of e]
  obtain w1 where s: "player_step e w = Some w1" and ok1: "bins_ok w1" by blast
  from Cons.IH [OF ok1] show ?case using s by simp
qed

lemma new_PlayerComponent_returns:
  "\<exists>w. new_PlayerComponent i nm ch ms = Some w \<and> bins_ok w"
proof -
  let ?w0 = "\<lparr>connected = {}, models = ms, characterComponents = [],
              CharacterComponent_active = [],
              playerComponent = \<lparr>inst = i, bin = new_Bin, name = nm, character = None\<rparr>,
              PlayerComponent_active = [], threads = []\<rparr>"
  have ok0: "bins_ok ?w0" by (simp add: bins_ok_def Bin_inv_new)
  have "\<exists>w1. (case ch of None \<Rightarrow> Some ?w0 | Some character' \<Rightarrow> onCharacterAdded character' ?w0)
            = Some w1 \<and> bins_ok w1"
    using ok0 onCharacterAdded_returns [OF ok0] by (cases ch) auto
  then obtain w1 where s: "(case ch of None \<Rightarrow> Some ?w0
        | Some character' \<Rightarrow> onCharacterAdded character' ?w0) = Some w1"
    and ok1: "bins_ok w1" by blast
  have b: "Bin_inv (Bin_add (Bin_batch (bin (playerComponent w1))
        [Connection (CharacterAdded 0), Connection (CharacterRemoving 0)])
        (Callback (unregister_player 0)))"
    using ok1 by (intro Bin_add_inv Bin_batch_inv) (simp add: bins_ok_def)
  show ?thesis
    using s ok1 b
    by (auto simp: new_PlayerComponent_def Let_def Connect_def bins_ok_def
        simp del: Bin_batch.simps)
qed

text \<open>
  So whatever the player, its character and the events that follow, the constructor and
  the events run to a state, and in it \<open>CharacterComponent.active\<close> is empty.
\<close>

lemma registry_always_empty:
  "\<exists>w0. new_PlayerComponent i nm ch ms = Some w0
     \<and> (\<exists>w. player_run es w0 = Some w \<and> CharacterComponent_active w = [])"
proof -
  from new_PlayerComponent_returns [of i nm ch ms] obtain w0 where
    n: "new_PlayerComponent i nm ch ms = Some w0" and ok: "bins_ok w0" by blast
  from player_run_returns [OF ok, of es] obtain w where r: "player_run es w0 = Some w" by blast
  from registry_never_filled [OF n r] n r show ?thesis by blast
qed

text \<open>
  Claim C7, at a concrete input. A \<open>PlayerComponent\<close> is made for a player whose
  character, model \<open>4\<close>, has its root part and its humanoid; the player's
  \<open>CharacterRemoving\<close> signal fires and then its \<open>CharacterAdded\<close> signal, for model
  \<open>5\<close>, which has both children too. No thread is left suspended, the component of
  model \<open>4\<close> has been destroyed, the component of model \<open>5\<close> is the player's character
  and the only one not destroyed, and \<open>PlayerComponent.active\<close> holds the player's
  component, which its constructor registered. \<open>CharacterComponent.active\<close> holds no
  entry.
\<close>

theorem character_registry_empty:
  "map_option
     (\<lambda>w. (threads w, map inst (characterComponents w), character (playerComponent w),
           live_characters w, PlayerComponent_active w, CharacterComponent_active w))
     (Option.bind (new_PlayerComponent 0 ''Player1'' (Some 4) rigged)
        (player_run [CharacterRemoving_fired, CharacterAdded_fired 5]))
   = Some ([], [4, 5], Some 1, [1], [(0, 0)], [])"
  by (simp add: new_PlayerComponent_def onCharacterRemoving_def onCharacterAdded_def
      destroy_character_def CharacterComponent_destroy_def
      from_WaitForChild_HumanoidRootPart_def from_WaitForChild_Humanoid_def
      rigged_def Connect_def Let_def live_characters_def destroyed_def Bin_isEmpty_def
      Bin_add_def new_Bin_def Bin_destroy_def Bin_run_simps quiet_def)

end
